theory Spec2Isabelle
  imports Main "HOL-Library.FSet" "HOL-Library.AList" "HOL-Library.List_Lexorder" "HOL-Library.Char_ord" "HOL-Library.Multiset"
begin

section \<open>Exceptions and string helpers\<close>

text \<open>
  The exceptions the module raises are values: \<open>PortError\<close>, \<open>ValueError\<close>,
  \<open>TypeError\<close>, \<open>IndexError\<close> and \<open>AssertionError\<close> with Python's meaning,
  \<open>UnconnectedSignalError\<close> with the module name and the port names it is raised with,
  and \<open>Raised\<close> for an exception that comes out of user code or an external
  collaborator. \<open>startswith\<close> is \<open>str.startswith\<close>.
\<close>

datatype error =
    PortError string
  | ValueError string
  | TypeError string
  | IndexError string
  | AssertionError
  | UnconnectedSignalError string "string list"
  | Raised string

definition startswith :: "string \<Rightarrow> string \<Rightarrow> bool" where
  "startswith s p = (take (length p) s = p)"


section \<open>Block context: unique instance names\<close>

text \<open>
  \<open>_BlockContext.uniquify_symbol\<close> formats candidate names with an f-string,
  \<open>f"{sym}_{ctr}"\<close>; \<open>str_nat\<close> is Python's decimal rendering of a non-negative
  integer and \<open>fmt_sym\<close> the f-string. The symbol set of a context is a finite set.
\<close>

definition digit_char :: "nat \<Rightarrow> char" where
  "digit_char d = char_of (48 + d)"

fun str_nat :: "nat \<Rightarrow> string" where
  "str_nat n = (if n < 10 then [digit_char n] else str_nat (n div 10) @ [digit_char (n mod 10)])"

declare str_nat.simps [simp del]

definition fmt_sym :: "string \<Rightarrow> nat \<Rightarrow> string" where
  "fmt_sym symb ctr = symb @ ''_'' @ str_nat ctr"

record BlockContext =
  symbols :: "string fset"

lemma digit_char_code: "d < 10 \<Longrightarrow> of_char (digit_char d) = (48 + d :: nat)"
proof -
  assume "d < 10"
  then have "(48 + d) mod 256 = 48 + d" by simp
  then show ?thesis unfolding digit_char_def by (simp only: of_char_of)
qed

lemma digit_char_inj: "a < 10 \<Longrightarrow> b < 10 \<Longrightarrow> digit_char a = digit_char b \<Longrightarrow> a = b"
proof -
  assume a: "a < 10" and b: "b < 10" and e: "digit_char a = digit_char b"
  from e have "(of_char (digit_char a) :: nat) = of_char (digit_char b)" by (rule arg_cong)
  then show "a = b" by (simp only: digit_char_code[OF a] digit_char_code[OF b] add_left_cancel)
qed

lemma str_nat_nonempty: "str_nat n \<noteq> []"
  by (subst str_nat.simps) simp

lemma str_nat_inj: "str_nat n = str_nat m \<Longrightarrow> n = m"
proof (induction n arbitrary: m rule: str_nat.induct)
  case (1 n)
  show ?case
  proof (cases "n < 10")
    case True
    then have n: "str_nat n = [digit_char n]" by (subst str_nat.simps) simp
    show ?thesis
    proof (cases "m < 10")
      case mt: True
      then have "str_nat m = [digit_char m]" by (subst str_nat.simps) simp
      with n "1.prems" True mt show ?thesis by (auto dest: digit_char_inj)
    next
      case False
      then have "str_nat m = str_nat (m div 10) @ [digit_char (m mod 10)]"
        by (subst str_nat.simps) simp
      with n "1.prems" have "str_nat (m div 10) = []" by simp
      then show ?thesis using str_nat_nonempty by blast
    qed
  next
    case False
    then have n: "str_nat n = str_nat (n div 10) @ [digit_char (n mod 10)]"
      by (subst str_nat.simps) simp
    show ?thesis
    proof (cases "m < 10")
      case True
      then have "str_nat m = [digit_char m]" by (subst str_nat.simps) simp
      with n "1.prems" have "str_nat (n div 10) = []" by simp
      then show ?thesis using str_nat_nonempty by blast
    next
      case mf: False
      then have m: "str_nat m = str_nat (m div 10) @ [digit_char (m mod 10)]"
        by (subst str_nat.simps) simp
      from n m "1.prems" have e1: "str_nat (n div 10) = str_nat (m div 10)"
        and e2: "digit_char (n mod 10) = digit_char (m mod 10)" by simp_all
      from "1.IH"[OF False e1] have d: "n div 10 = m div 10" .
      have "n mod 10 < 10" "m mod 10 < 10" by simp_all
      then have r: "n mod 10 = m mod 10" using e2 by (rule digit_char_inj)
      from d r show ?thesis by (metis div_mult_mod_eq)
    qed
  qed
qed

lemma fmt_sym_inj: "fmt_sym symb a = fmt_sym symb b \<Longrightarrow> a = b"
  by (simp add: fmt_sym_def str_nat_inj)

lemma finite_taken: "finite {k. fmt_sym symb k |\<in>| syms}"
proof -
  have "inj (fmt_sym symb)" by (rule injI) (rule fmt_sym_inj)
  then have "finite (fmt_sym symb -` fset syms)" by (intro finite_vimageI) simp_all
  moreover have "{k. fmt_sym symb k |\<in>| syms} = fmt_sym symb -` fset syms" by auto
  ultimately show ?thesis by simp
qed

function uniquify_loop :: "string fset \<Rightarrow> string \<Rightarrow> nat \<Rightarrow> string \<Rightarrow> string" where
  "uniquify_loop syms symb ctr ret =
     (if ret |\<in>| syms then uniquify_loop syms symb (ctr + 1) (fmt_sym symb (ctr + 1)) else ret)"
  by pat_completeness auto
termination
proof (relation "measure (\<lambda>(syms, symb, ctr, ret).
          (if ret |\<in>| syms then 1 else 0) + card {k. ctr < k \<and> fmt_sym symb k |\<in>| syms})")
  show "wf (measure (\<lambda>(syms, symb, ctr, ret).
          (if ret |\<in>| syms then 1 else 0) + card {k. ctr < k \<and> fmt_sym symb k |\<in>| syms}))"
    by simp
next
  fix syms :: "string fset" and symb :: string and ctr :: nat and ret :: string
  assume r: "ret |\<in>| syms"
  let ?A = "{k. ctr < k \<and> fmt_sym symb k |\<in>| syms}"
  let ?B = "{k. ctr + 1 < k \<and> fmt_sym symb k |\<in>| syms}"
  have fA: "finite ?A" using finite_taken[of symb syms] by (rule rev_finite_subset) auto
  have fB: "finite ?B" using finite_taken[of symb syms] by (rule rev_finite_subset) auto
  have "(if fmt_sym symb (ctr + 1) |\<in>| syms then 1 else 0) + card ?B = card ?A"
  proof (cases "fmt_sym symb (ctr + 1) |\<in>| syms")
    case True
    then have "?A = insert (ctr + 1) ?B" by (auto simp: Suc_lessI)
    moreover have "ctr + 1 \<notin> ?B" by simp
    ultimately have "card ?A = Suc (card ?B)" using fB by (metis card_insert_disjoint)
    with True show ?thesis by simp
  next
    case False
    then have "?A = ?B" by (auto simp: Suc_lessI) (metis Suc_lessI)
    with False show ?thesis by simp
  qed
  with r show "((syms, symb, ctr + 1, fmt_sym symb (ctr + 1)), (syms, symb, ctr, ret))
       \<in> measure (\<lambda>(syms, symb, ctr, ret).
          (if ret |\<in>| syms then 1 else 0) + card {k. ctr < k \<and> fmt_sym symb k |\<in>| syms})"
    by simp
qed

declare uniquify_loop.simps [simp del]

definition uniquify_symbol :: "BlockContext \<Rightarrow> string \<Rightarrow> string \<times> BlockContext" where
  "uniquify_symbol self symb =
     (let ret = uniquify_loop (symbols self) symb 0 symb
      in (ret, self\<lparr>symbols := finsert ret (symbols self)\<rparr>))"

fun uniquify_calls :: "BlockContext \<Rightarrow> string list \<Rightarrow> string list \<times> BlockContext" where
  "uniquify_calls self [] = ([], self)"
| "uniquify_calls self (symb # rest) =
     (let (ret, self') = uniquify_symbol self symb;
          (rets, self'') = uniquify_calls self' rest
      in (ret # rets, self''))"

lemma uniquify_loop_spec:
  "uniquify_loop syms symb ctr ret |\<notin>| syms \<and>
   (ret |\<notin>| syms \<longrightarrow> uniquify_loop syms symb ctr ret = ret) \<and>
   (ret |\<in>| syms \<longrightarrow>
      (\<exists>N>ctr. uniquify_loop syms symb ctr ret = fmt_sym symb N \<and>
         (\<forall>k. ctr < k \<and> k < N \<longrightarrow> fmt_sym symb k |\<in>| syms)))"
proof (induction syms symb ctr ret rule: uniquify_loop.induct)
  case (1 syms symb ctr ret)
  show ?case
  proof (cases "ret |\<in>| syms")
    case False
    then show ?thesis by (subst (1 2) uniquify_loop.simps) simp
  next
    case True
    let ?n = "fmt_sym symb (ctr + 1)"
    have unf: "uniquify_loop syms symb ctr ret = uniquify_loop syms symb (ctr + 1) ?n"
      using True by (subst uniquify_loop.simps) simp
    note IH = "1.IH"[OF True]
    show ?thesis
    proof (cases "?n |\<in>| syms")
      case nf: False
      with IH have "uniquify_loop syms symb (ctr + 1) ?n = ?n" by simp
      with unf True nf show ?thesis by (intro conjI impI exI[of _ "ctr + 1"]) auto
    next
      case nt: True
      with IH obtain N where N: "N > ctr + 1"
        "uniquify_loop syms symb (ctr + 1) ?n = fmt_sym symb N"
        "\<forall>k. ctr + 1 < k \<and> k < N \<longrightarrow> fmt_sym symb k |\<in>| syms" by blast
      have "\<forall>k. ctr < k \<and> k < N \<longrightarrow> fmt_sym symb k |\<in>| syms"
      proof (intro allI impI)
        fix k assume k: "ctr < k \<and> k < N"
        show "fmt_sym symb k |\<in>| syms"
        proof (cases "k = ctr + 1")
          case True then show ?thesis using nt by simp
        next
          case False then show ?thesis using k N(3) by simp
        qed
      qed
      moreover have "fmt_sym symb N |\<notin>| syms" using IH N(2) by simp
      ultimately show ?thesis using unf True N(1,2)
        by (intro conjI impI exI[of _ N]) auto
    qed
  qed
qed

lemma uniquify_symbol_fresh:
  "uniquify_symbol self symb = (ret, self') \<Longrightarrow>
     ret |\<notin>| symbols self \<and> symbols self' = finsert ret (symbols self)"
  using uniquify_loop_spec[of "symbols self" symb 0 symb]
  by (auto simp: uniquify_symbol_def Let_def)

lemma uniquify_calls_distinct:
  "uniquify_calls self names = (rets, self') \<Longrightarrow>
     distinct rets \<and> fset (symbols self') = set rets \<union> fset (symbols self) \<and>
     set rets \<inter> fset (symbols self) = {}"
proof (induction names arbitrary: self rets self')
  case Nil
  then show ?case by simp
next
  case (Cons symb rest)
  obtain r s1 where c1: "uniquify_symbol self symb = (r, s1)" by (cases "uniquify_symbol self symb")
  obtain rs s2 where c2: "uniquify_calls s1 rest = (rs, s2)" by (cases "uniquify_calls s1 rest")
  from Cons.prems c1 c2 have eq: "rets = r # rs" "self' = s2" by simp_all
  from uniquify_symbol_fresh[OF c1] have f: "r |\<notin>| symbols self" "symbols s1 = finsert r (symbols self)"
    by simp_all
  from Cons.IH[OF c2] have ih: "distinct rs" "fset (symbols s2) = set rs \<union> fset (symbols s1)"
    "set rs \<inter> fset (symbols s1) = {}" by simp_all
  from f ih eq show ?case by auto
qed

text \<open>
  C9. \<open>uniquify_symbol\<close> returns the symbol itself when it is not yet in the context's
  symbol set; otherwise it returns \<open>sym_N\<close> for the smallest positive \<open>N\<close> such that
  \<open>sym_N\<close> is not in the set. The returned name was not in the set before and is
  in it afterwards, so the names returned by any sequence of calls on one context are
  pairwise distinct.
\<close>

theorem uniquify_symbol_smallest_fresh:
  assumes "uniquify_symbol self symb = (ret, self')"
    and "uniquify_calls self names = (rets, self'')"
  shows "(symb |\<notin>| symbols self \<longrightarrow> ret = symb) \<and>
         (symb |\<in>| symbols self \<longrightarrow>
            (\<exists>N>0. ret = symb @ ''_'' @ str_nat N \<and> ret |\<notin>| symbols self \<and>
               (\<forall>k. 0 < k \<and> k < N \<longrightarrow> symb @ ''_'' @ str_nat k |\<in>| symbols self))) \<and>
         ret |\<notin>| symbols self \<and>
         symbols self' = finsert ret (symbols self) \<and>
         distinct rets"
proof -
  have r: "ret = uniquify_loop (symbols self) symb 0 symb"
    using assms(1) by (auto simp: uniquify_symbol_def Let_def)
  note sp = uniquify_loop_spec[of "symbols self" symb 0 symb, folded r]
  have a: "symb |\<notin>| symbols self \<longrightarrow> ret = symb" using sp by simp
  have b: "symb |\<in>| symbols self \<longrightarrow>
            (\<exists>N>0. ret = symb @ ''_'' @ str_nat N \<and> ret |\<notin>| symbols self \<and>
               (\<forall>k. 0 < k \<and> k < N \<longrightarrow> symb @ ''_'' @ str_nat k |\<in>| symbols self))"
    using sp unfolding fmt_sym_def by blast
  from a b uniquify_symbol_fresh[OF assms(1)] uniquify_calls_distinct[OF assms(2)]
  show ?thesis by blast
qed

theorem uniquify_symbol_smallest_fresh_witness:
  "uniquify_symbol \<lparr>symbols = {|''u'', ''u_1''|}\<rparr> ''u''
     = (''u_2'', \<lparr>symbols = {|''u_2'', ''u'', ''u_1''|}\<rparr>) \<and>
   uniquify_calls \<lparr>symbols = {|''u'', ''u_1''|}\<rparr> [''u'', ''v'', ''u'']
     = ([''u_2'', ''v'', ''u_3''], \<lparr>symbols = {|''u_3'', ''v'', ''u_2'', ''u'', ''u_1''|}\<rparr>) \<and>
   ''u_2'' |\<notin>| {|''u'', ''u_1''|} \<and> distinct [''u_2'', ''v'', ''u_3'']"
proof -
  have h1: "uniquify_symbol \<lparr>symbols = {|''u'', ''u_1''|}\<rparr> ''u''
     = (''u_2'', \<lparr>symbols = {|''u_2'', ''u'', ''u_1''|}\<rparr>)"
    by code_simp
  have h2: "uniquify_calls \<lparr>symbols = {|''u'', ''u_1''|}\<rparr> [''u'', ''v'', ''u'']
     = ([''u_2'', ''v'', ''u_3''], \<lparr>symbols = {|''u_3'', ''v'', ''u_2'', ''u'', ''u_1''|}\<rparr>)"
    by code_simp
  from uniquify_symbol_smallest_fresh[OF h1 h2] h1 h2 show ?thesis by simp
qed


section \<open>Definition naming\<close>

text \<open>
  \<open>_create_module_name\<close> and the \<open>name\<close> property of \<open>ModuleLikeBuilderBase\<close>.
  Strings are lists of characters compared by code point, as Python compares them; a
  character of a HOL string is a code point below 256. \<open>isalnum\<close> is \<open>str.isalnum\<close>
  on those code points: the ASCII letters and digits, and the code points of the Latin-1
  range that Unicode classes as letters or numbers (\<open>0xAA\<close>, \<open>0xB2\<close>, \<open>0xB3\<close>,
  \<open>0xB5\<close>, \<open>0xB9\<close>, \<open>0xBA\<close>, \<open>0xBC\<close> to \<open>0xBE\<close>, \<open>0xC0\<close> to \<open>0xD6\<close>,
  \<open>0xD8\<close> to \<open>0xF6\<close>, \<open>0xF8\<close> to \<open>0xFF\<close>). \<open>replace_hw\<close> is
  \<open>name.replace("!hw.", "")\<close>, \<open>sanitize\<close> is the character loop with its accumulator
  \<open>ret\<close>, and \<open>strip_underscores\<close> is \<open>ret.strip("_")\<close>. The elements of an
  \<open>ir.DictAttr\<close> are attributes, so \<open>val_str\<close> always takes its second branch,
  \<open>str(attribute_to_var(val))\<close>; that rendering belongs to the IR bindings and is the
  parameter \<open>val_str\<close> here.
\<close>

definition isalnum :: "char \<Rightarrow> bool" where
  "isalnum c = (let n = (of_char c :: nat)
                in (48 \<le> n \<and> n \<le> 57) \<or> (65 \<le> n \<and> n \<le> 90) \<or> (97 \<le> n \<and> n \<le> 122) \<or>
                   n = 170 \<or> n = 178 \<or> n = 179 \<or> n = 181 \<or> n = 185 \<or> n = 186 \<or>
                   (188 \<le> n \<and> n \<le> 190) \<or> (192 \<le> n \<and> n \<le> 214) \<or>
                   (216 \<le> n \<and> n \<le> 246) \<or> (248 \<le> n \<and> n \<le> 255))"

fun replace_hw :: "string \<Rightarrow> string" where
  "replace_hw [] = []"
| "replace_hw (c # cs) =
     (if take 4 (c # cs) = ''!hw.'' then replace_hw (drop 3 cs) else c # replace_hw cs)"

definition dropped_chars :: "char set" where
  "dropped_chars = set (''!>[],'' @ [CHR 0x22])"

fun sanitize :: "string \<Rightarrow> string \<Rightarrow> string" where
  "sanitize ret [] = ret"
| "sanitize ret (c # cs) =
     sanitize (if isalnum c then ret @ [c]
               else if c \<notin> dropped_chars \<and> length ret > 0 \<and> last ret \<noteq> CHR ''_''
                    then ret @ ''_'' else ret) cs"

definition strip_underscores :: "string \<Rightarrow> string" where
  "strip_underscores s =
     rev (dropWhile (\<lambda>c. c = CHR ''_'') (rev (dropWhile (\<lambda>c. c = CHR ''_'') s)))"

definition param_strings :: "('a \<Rightarrow> string) \<Rightarrow> (string \<times> 'a) list \<Rightarrow> string list" where
  "param_strings val_str params = map (\<lambda>(n, a). n @ val_str a) params"

definition create_module_name :: "('a \<Rightarrow> string) \<Rightarrow> string \<Rightarrow> (string \<times> 'a) list \<Rightarrow> string" where
  "create_module_name val_str name params =
     (let name' = foldl (\<lambda>nm ps. nm @ ''_'' @ ps) name (sort (param_strings val_str params))
      in strip_underscores (sanitize [] (replace_hw name')))"


datatype 'a mod_attribute = OutputFileAttr string | UnitAttr | Attr 'a

record ('p, 'g, 'k, 'a) ModuleLikeBuilderBase =
  modcls_name :: string
  modcls_module_name :: "string option"
  ports :: "'p list"
  clocks :: "nat set"
  resets :: "nat set"
  generators :: "(string \<times> 'g) list"
  constants :: "(string \<times> 'k) list"
  parameters :: "(string \<times> 'a) list option"
  attributes :: "(string \<times> 'a mod_attribute) list"

definition builder_name ::
  "('a \<Rightarrow> string) \<Rightarrow> ('p, 'g, 'k, 'a) ModuleLikeBuilderBase \<Rightarrow> string" where
  "builder_name val_str self =
     (case modcls_module_name self of
        Some n \<Rightarrow> n
      | None \<Rightarrow>
          (case parameters self of
             Some params \<Rightarrow>
               if length (generators self) > 0
               then create_module_name val_str (modcls_name self) params
               else modcls_name self
           | None \<Rightarrow> modcls_name self))"

function spec_collapse :: "string \<Rightarrow> string" where
  "spec_collapse [] = []"
| "spec_collapse (c # cs) =
     (if isalnum c then c # spec_collapse cs
      else CHR ''_'' # spec_collapse (dropWhile (\<lambda>d. \<not> isalnum d) cs))"
  by pat_completeness auto
termination
  by (relation "measure length") (auto simp: less_Suc_eq_le length_dropWhile_le)

definition spec_rendered :: "('a \<Rightarrow> string) \<Rightarrow> string \<Rightarrow> (string \<times> 'a) list \<Rightarrow> string" where
  "spec_rendered val_str name params =
     name @ concat (map (\<lambda>ps. ''_'' @ ps) (sort (param_strings val_str params)))"

definition spec_module_name :: "('a \<Rightarrow> string) \<Rightarrow> string \<Rightarrow> (string \<times> 'a) list \<Rightarrow> string" where
  "spec_module_name val_str name params =
     strip_underscores (spec_collapse (spec_rendered val_str name params))"

lemma underscore_not_alnum: "\<not> isalnum CHR ''_''"
  by (simp add: isalnum_def)

lemma dropped_not_alnum: "c \<in> dropped_chars \<Longrightarrow> \<not> isalnum c"
  by (auto simp: dropped_chars_def isalnum_def)

lemma foldl_append_names:
  "foldl (\<lambda>nm ps. nm @ ''_'' @ ps) name pss = name @ concat (map (\<lambda>ps. ''_'' @ ps) pss)"
  by (induction pss arbitrary: name) simp_all

lemma sanitize_filter:
  "sanitize ret s = sanitize ret (filter (\<lambda>c. c \<notin> dropped_chars) s)"
  by (induction s arbitrary: ret) (auto dest: dropped_not_alnum)

lemma sanitize_collapse:
  "\<forall>c \<in> set s. c \<notin> dropped_chars \<Longrightarrow>
   sanitize ret s =
     (if ret \<noteq> [] \<and> last ret \<noteq> CHR ''_'' then ret @ spec_collapse s
      else ret @ spec_collapse (dropWhile (\<lambda>d. \<not> isalnum d) s))"
proof (induction s arbitrary: ret)
  case Nil
  then show ?case by simp
next
  case (Cons c cs)
  then have cs: "\<forall>c \<in> set cs. c \<notin> dropped_chars" and c: "c \<notin> dropped_chars" by simp_all
  show ?case
  proof (cases "isalnum c")
    case True
    then have "c \<noteq> CHR ''_''" using underscore_not_alnum by auto
    with True Cons.IH[OF cs, of "ret @ [c]"] show ?thesis by simp
  next
    case False
    show ?thesis
    proof (cases "ret \<noteq> [] \<and> last ret \<noteq> CHR ''_''")
      case True
      with False c Cons.IH[OF cs, of "ret @ ''_''"] show ?thesis by simp
    next
      case f: False
      with False c Cons.IH[OF cs, of ret] show ?thesis by auto
    qed
  qed
qed

lemma strip_underscores_Cons: "strip_underscores (CHR ''_'' # s) = strip_underscores s"
  by (simp add: strip_underscores_def)

lemma strip_collapse_dropWhile:
  "strip_underscores (spec_collapse (dropWhile (\<lambda>d. \<not> isalnum d) s))
     = strip_underscores (spec_collapse s)"
  by (cases s) (simp_all add: strip_underscores_Cons)

lemma sort_param_strings_mset:
  "mset params' = mset params \<Longrightarrow>
     sort (param_strings val_str params') = sort (param_strings val_str params)"
proof -
  assume "mset params' = mset params"
  then have "mset (param_strings val_str params') = mset (param_strings val_str params)"
    unfolding param_strings_def by (metis mset_map)
  then show ?thesis by (metis properties_for_sort sorted_sort mset_sort)
qed

lemma create_module_name_collapse:
  "create_module_name val_str name params =
     strip_underscores (spec_collapse (filter (\<lambda>c. c \<notin> dropped_chars)
        (replace_hw (spec_rendered val_str name params))))"
proof -
  let ?s = "replace_hw (spec_rendered val_str name params)"
  let ?f = "filter (\<lambda>c. c \<notin> dropped_chars) ?s"
  have "create_module_name val_str name params = strip_underscores (sanitize [] ?s)"
    unfolding create_module_name_def spec_rendered_def foldl_append_names Let_def ..
  also have "sanitize [] ?s = sanitize [] ?f" by (rule sanitize_filter)
  also have "sanitize [] ?f = spec_collapse (dropWhile (\<lambda>d. \<not> isalnum d) ?f)"
    by (subst sanitize_collapse) simp_all
  finally show ?thesis by (simp only: strip_collapse_dropWhile)
qed

lemma create_module_name_mset:
  "mset params' = mset params \<Longrightarrow>
     create_module_name val_str name params' = create_module_name val_str name params"
  unfolding create_module_name_def by (simp only: sort_param_strings_mset[of params' params val_str])

text \<open>
  C8 (as stated). The claim describes the derived name as the rendered string with all
  non-alphanumeric characters collapsed to single underscores; \<open>spec_module_name\<close> is
  that description. For the parameter \<open>c = [62, 42]\<close> the code gives a different name:
  the brackets and the comma are deleted, not turned into underscores. For a parameter
  rendered as the type \<open>!hw.array<4xi8>\<close> the prefix \<open>!hw.\<close> and the closing
  \<open>>\<close> are deleted as well.
\<close>

theorem builder_name_collapse_counterexample:
  "builder_name id
     \<lparr>modcls_name = ''Poly'', modcls_module_name = None,
      ports = ([] :: unit list), clocks = {}, resets = {},
      generators = [(''construct'', ())], constants = ([] :: (string \<times> unit) list),
      parameters = Some [(''c'', ''[62, 42]'')], attributes = []\<rparr>
     = ''Poly_c62_42'' \<and>
   spec_module_name id ''Poly'' [(''c'', ''[62, 42]'')] = ''Poly_c_62_42'' \<and>
   builder_name id
     \<lparr>modcls_name = ''Poly'', modcls_module_name = None,
      ports = ([] :: unit list), clocks = {}, resets = {},
      generators = [(''construct'', ())], constants = ([] :: (string \<times> unit) list),
      parameters = Some [(''c'', ''[62, 42]'')], attributes = []\<rparr>
     \<noteq> spec_module_name id ''Poly'' [(''c'', ''[62, 42]'')] \<and>
   create_module_name id ''Poly'' [(''t'', ''!hw.array<4xi8>'')] = ''Poly_tarray_4xi8'' \<and>
   spec_module_name id ''Poly'' [(''t'', ''!hw.array<4xi8>'')] = ''Poly_t_hw_array_4xi8''"
  by (simp add: builder_name_def create_module_name_def param_strings_def isalnum_def
        dropped_chars_def strip_underscores_def spec_module_name_def spec_rendered_def)

text \<open>
  C8 (amended). For a parameterized definition with a generation routine and no name
  override, the derived name is the base name followed by \<open>_name+valuestring\<close> for each
  parameter, the renderings sorted; then every occurrence of \<open>!hw.\<close> and every
  character among \<open>! > [ ] , "\<close> is deleted, each remaining run of non-alphanumeric
  characters becomes one underscore, and leading and trailing underscores are trimmed.
  The name does not depend on the order in which the parameters are supplied.
\<close>

theorem builder_name_parameterized:
  assumes "modcls_module_name self = None"
    and "parameters self = Some params"
    and "generators self \<noteq> []"
  shows "builder_name val_str self =
           strip_underscores (spec_collapse (filter (\<lambda>c. c \<notin> dropped_chars)
             (replace_hw (spec_rendered val_str (modcls_name self) params)))) \<and>
         (\<forall>params'. mset params' = mset params \<longrightarrow>
            builder_name val_str (self\<lparr>parameters := Some params'\<rparr>)
              = builder_name val_str self)"
proof -
  have n: "builder_name val_str self = create_module_name val_str (modcls_name self) params"
    using assms by (cases "generators self") (simp_all add: builder_name_def)
  have "builder_name val_str (self\<lparr>parameters := Some params'\<rparr>)
          = create_module_name val_str (modcls_name self) params'" for params'
    using assms by (cases "generators self") (simp_all add: builder_name_def)
  then have p: "\<forall>params'. mset params' = mset params \<longrightarrow>
            builder_name val_str (self\<lparr>parameters := Some params'\<rparr>)
              = builder_name val_str self"
    using n create_module_name_mset[of _ params val_str "modcls_name self"] by metis
  have "builder_name val_str self =
           strip_underscores (spec_collapse (filter (\<lambda>c. c \<notin> dropped_chars)
             (replace_hw (spec_rendered val_str (modcls_name self) params))))"
    using n create_module_name_collapse[of val_str "modcls_name self" params] by (rule trans)
  with p show ?thesis by (rule conjI[rotated])
qed

theorem builder_name_parameterized_witness:
  "builder_name id
     \<lparr>modcls_name = ''Adder'', modcls_module_name = None,
      ports = ([] :: unit list), clocks = {}, resets = {},
      generators = [(''construct'', ())], constants = ([] :: (string \<times> unit) list),
      parameters = Some [(''b'', ''2''), (''a'', ''<i8>'')], attributes = []\<rparr>
   = ''Adder_a_i8_b2'' \<and>
   builder_name id
     \<lparr>modcls_name = ''Adder'', modcls_module_name = None,
      ports = ([] :: unit list), clocks = {}, resets = {},
      generators = [(''construct'', ())], constants = ([] :: (string \<times> unit) list),
      parameters = Some [(''a'', ''<i8>''), (''b'', ''2'')], attributes = []\<rparr>
   = ''Adder_a_i8_b2'' \<and>
   create_module_name id (''Caf'' @ [CHR 0xE9]) [(''s'', [CHR 0xE9, CHR 0xD7, CHR 0xB2])]
   = ''Caf'' @ [CHR 0xE9] @ ''_s'' @ [CHR 0xE9] @ ''_'' @ [CHR 0xB2]"
proof -
  let ?B = "\<lparr>modcls_name = ''Adder'', modcls_module_name = None,
      ports = ([] :: unit list), clocks = {}, resets = {},
      generators = [(''construct'', ())], constants = ([] :: (string \<times> unit) list),
      parameters = Some [(''b'', ''2''), (''a'', ''<i8>'')], attributes = []\<rparr>"
  have h1: "modcls_module_name ?B = None" by simp
  have h2: "parameters ?B = Some [(''b'', ''2''), (''a'', ''<i8>'')]" by simp
  have h3: "generators ?B \<noteq> []" by simp
  have v: "builder_name id ?B = ''Adder_a_i8_b2''"
    by (simp add: builder_name_def create_module_name_def param_strings_def isalnum_def
        dropped_chars_def strip_underscores_def)
  have m: "mset [(''a'', ''<i8>''), (''b'', ''2'')] = mset [(''b'', ''2''), (''a'', ''<i8>'')]"
    by (simp add: add.commute)
  from builder_name_parameterized[OF h1 h2 h3, of id] m
  have "builder_name id (?B\<lparr>parameters := Some [(''a'', ''<i8>''), (''b'', ''2'')]\<rparr>)
          = builder_name id ?B" by blast
  moreover have "create_module_name id (''Caf'' @ [CHR 0xE9]) [(''s'', [CHR 0xE9, CHR 0xD7, CHR 0xB2])]
   = ''Caf'' @ [CHR 0xE9] @ ''_s'' @ [CHR 0xE9] @ ''_'' @ [CHR 0xB2]"
    by (simp add: create_module_name_def param_strings_def isalnum_def
        dropped_chars_def strip_underscores_def)
  ultimately show ?thesis using v by simp
qed




section \<open>Parameterization cache\<close>





















section \<open>Ports\<close>

text \<open>
  Modelled from the spec: the port marker classes \<open>Input\<close>, \<open>Output\<close>, \<open>Clock\<close> and
  \<open>Reset\<close> are declared in the common module, which is not among the sources. Following
  the data model (a port is an Input or an Output; only input ports carry the Clock or
  Reset role), \<open>Clock\<close> and \<open>Reset\<close> are kinds of \<open>Input\<close>. A marker object has the
  slots \<open>type\<close>, \<open>idx\<close> and \<open>name\<close>; \<open>inputs\<close> and \<open>outputs\<close> are the builder's
  properties of those names.
\<close>

datatype port_class = InputCls | ClockCls | ResetCls | OutputCls

definition isinstance_Input :: "port_class \<Rightarrow> bool" where
  "isinstance_Input c = (c = InputCls \<or> c = ClockCls \<or> c = ResetCls)"

definition isinstance_Output :: "port_class \<Rightarrow> bool" where
  "isinstance_Output c = (c = OutputCls)"

definition isinstance_Clock :: "port_class \<Rightarrow> bool" where
  "isinstance_Clock c = (c = ClockCls)"

definition isinstance_Reset :: "port_class \<Rightarrow> bool" where
  "isinstance_Reset c = (c = ResetCls)"

record 't ModuleDecl =
  decl_cls :: port_class
  decl_type :: 't
  idx :: nat
  name :: string

definition inputs :: "('t ModuleDecl, 'g, 'k, 'a) ModuleLikeBuilderBase \<Rightarrow> 't ModuleDecl list" where
  "inputs self = filter (\<lambda>p. isinstance_Input (decl_cls p)) (ports self)"

definition outputs :: "('t ModuleDecl, 'g, 'k, 'a) ModuleLikeBuilderBase \<Rightarrow> 't ModuleDecl list" where
  "outputs self = filter (\<lambda>p. isinstance_Output (decl_cls p)) (ports self)"


section \<open>Instance builder\<close>

text \<open>
  \<open>ModuleBuilder.instantiate\<close>. A supplied value is a \<open>Signal\<close>, \<open>None\<close>, or some
  other Python value to be converted by calling the port's type. The signal and type
  algebra is external: \<open>type_str\<close> renders a type in a message, \<open>create_const_zero\<close>
  builds the zero of a type, and \<open>type_call\<close> is \<open>port.type(signal)\<close>, which may raise.
  The supplied inputs are the items of a Python dict in iteration order, and
  dictionaries built by the code (\<open>port_input_lookup\<close>, \<open>circt_inputs\<close>) are association
  lists updated with \<open>AList.update\<close>, which keeps the first insertion position of a key as
  a dict does. \<open>resolve_inputs\<close> is the loop over the supplied items. Building and
  verifying the IR instance belongs to the IR bindings; the result here is the data the
  instance is built from.
\<close>

record ('v, 't) Signal =
  sig_value :: 'v
  sig_type :: 't

datatype ('v, 't, 'c) supplied = IsSignal "('v, 't) Signal" | IsNone | Literal 'c

record ('v, 't, 'c) hw_env =
  type_str :: "'t \<Rightarrow> string"
  create_const_zero :: "'t \<Rightarrow> ('v, 't) Signal"
  type_call :: "'t \<Rightarrow> 'c \<Rightarrow> error + ('v, 't) Signal"

record ('v, 'a) Instance =
  inst_name :: string
  inst_inputs :: "(string \<times> 'v) list"
  inst_parameters :: "(string \<times> 'a) list"

fun str_join :: "string \<Rightarrow> string list \<Rightarrow> string" where
  "str_join sep [] = []"
| "str_join sep [x] = x"
| "str_join sep (x # y # ys) = x @ sep @ str_join sep (y # ys)"

definition port_input_lookup ::
  "('t ModuleDecl, 'g, 'k, 'a) ModuleLikeBuilderBase \<Rightarrow> (string \<times> 't ModuleDecl) list" where
  "port_input_lookup self = foldl (\<lambda>d port. AList.update (name port) port d) [] (inputs self)"

fun resolve_inputs ::
  "('v, 't, 'c) hw_env \<Rightarrow> ('t ModuleDecl, 'g, 'k, 'a) ModuleLikeBuilderBase
     \<Rightarrow> (string \<times> 't ModuleDecl) list \<Rightarrow> (string \<times> 'v) list
     \<Rightarrow> (string \<times> ('v, 't, 'c) supplied) list \<Rightarrow> error + (string \<times> 'v) list" where
  "resolve_inputs E self lookup circt_inputs [] = Inr circt_inputs"
| "resolve_inputs E self lookup circt_inputs ((nm, signal) # rest) =
     (case map_of lookup nm of
        None \<Rightarrow> Inl (PortError (''Input port '' @ nm @ '' not found in module''))
      | Some port \<Rightarrow>
          (case signal of
             IsSignal sg \<Rightarrow>
               if sig_type sg \<noteq> decl_type port
               then Inl (ValueError (''Wrong type on input signal '' @ [CHR 0x27] @ nm @ [CHR 0x27]
                          @ ''. Got '' @ [CHR 0x27] @ type_str E (sig_type sg) @ [CHR 0x27]
                          @ '', expected '' @ [CHR 0x27] @ type_str E (decl_type port) @ [CHR 0x27]))
               else resolve_inputs E self lookup (AList.update nm (sig_value sg) circt_inputs) rest
           | IsNone \<Rightarrow>
               if length (generators self) > 0
               then Inl (PortError (''Port '' @ nm
                          @ '' cannot be None (disconnected ports only allowed on extern mods.''))
               else resolve_inputs E self lookup
                      (AList.update nm (sig_value (create_const_zero E (decl_type port))) circt_inputs)
                      rest
           | Literal c \<Rightarrow>
               (case type_call E (decl_type port) c of
                  Inl e \<Rightarrow> Inl e
                | Inr sg \<Rightarrow>
                    resolve_inputs E self lookup (AList.update nm (sig_value sg) circt_inputs) rest)))"

definition missing_inputs :: "(string \<times> 'p) list \<Rightarrow> (string \<times> 'v) list \<Rightarrow> string list" where
  "missing_inputs lookup circt_inputs = filter (\<lambda>nm. map_of circt_inputs nm = None) (map fst lookup)"

definition instantiate ::
  "('v, 't, 'c) hw_env \<Rightarrow> ('t ModuleDecl, 'g, 'k, 'a) ModuleLikeBuilderBase
     \<Rightarrow> (string \<times> ('v, 't, 'c) supplied) list \<Rightarrow> string \<Rightarrow> error + ('v, 'a) Instance" where
  "instantiate E self supplied_inputs instance_name =
     (case resolve_inputs E self (port_input_lookup self) [] supplied_inputs of
        Inl e \<Rightarrow> Inl e
      | Inr circt_inputs \<Rightarrow>
          (let missing = missing_inputs (port_input_lookup self) circt_inputs
           in if length missing > 0
              then Inl (ValueError (''Missing input signals for ports: '' @ str_join '', '' missing))
              else Inr \<lparr>inst_name = instance_name, inst_inputs = circt_inputs,
                        inst_parameters =
                          (case parameters self of
                             Some ps \<Rightarrow> if length (generators self) = 0 then ps else []
                           | None \<Rightarrow> [])\<rparr>))"

definition adder :: "bool \<Rightarrow> (string ModuleDecl, unit, unit, unit) ModuleLikeBuilderBase" where
  "adder generated =
     \<lparr>modcls_name = ''Adder'', modcls_module_name = None,
      ports = [\<lparr>decl_cls = InputCls, decl_type = ''i8'', idx = 0, name = ''lhs''\<rparr>,
               \<lparr>decl_cls = InputCls, decl_type = ''i8'', idx = 1, name = ''rhs''\<rparr>,
               \<lparr>decl_cls = OutputCls, decl_type = ''i8'', idx = 0, name = ''sum''\<rparr>],
      clocks = {}, resets = {},
      generators = (if generated then [(''build'', ())] else []), constants = [],
      parameters = None, attributes = []\<rparr>"

definition bits_env :: "(nat, string, nat) hw_env" where
  "bits_env = \<lparr>type_str = (\<lambda>t. t),
               create_const_zero = (\<lambda>t. \<lparr>sig_value = 0, sig_type = t\<rparr>),
               type_call = (\<lambda>t c. Inr \<lparr>sig_value = c, sig_type = t\<rparr>)\<rparr>"

lemmas instantiate_eval =
  instantiate_def port_input_lookup_def inputs_def isinstance_Input_def missing_inputs_def
  adder_def bits_env_def

lemma resolve_inputs_append:
  "resolve_inputs E self lk c (xs @ ys) =
     (case resolve_inputs E self lk c xs of
        Inl e \<Rightarrow> Inl e
      | Inr c' \<Rightarrow> resolve_inputs E self lk c' ys)"
  by (induction xs arbitrary: c)
     (auto split: option.splits supplied.splits sum.splits)

lemma resolve_inputs_keys:
  "resolve_inputs E self lk c xs = Inr c' \<Longrightarrow>
     fst ` set c' = fst ` set c \<union> fst ` set xs \<and> (\<forall>nm \<in> fst ` set xs. map_of lk nm \<noteq> None)"
proof (induction xs arbitrary: c)
  case Nil
  then show ?case by simp
next
  case (Cons x xs)
  obtain nm sg where x: "x = (nm, sg)" by (cases x)
  from Cons.prems x obtain port where p: "map_of lk nm = Some port"
    by (auto split: option.splits)
  from Cons.prems x p obtain v where
    r: "resolve_inputs E self lk (AList.update nm v c) xs = Inr c'"
    by (cases sg) (auto split: if_splits sum.splits)
  from Cons.IH[OF r] have
    "fst ` set c' = fst ` set (AList.update nm v c) \<union> fst ` set xs"
    "\<forall>nm \<in> fst ` set xs. map_of lk nm \<noteq> None" by simp_all
  moreover have "fst ` set (AList.update nm v c) = insert nm (fst ` set c)"
    using dom_update[of nm v c] by (simp add: dom_map_of_conv_image_fst)
  ultimately show ?case using x p by auto
qed

lemma resolve_inputs_unknown:
  assumes "nm \<in> fst ` set xs" and "map_of lk nm = None"
  shows "\<exists>e. resolve_inputs E self lk c xs = Inl e"
proof (cases "resolve_inputs E self lk c xs")
  case (Inl e)
  then show ?thesis by blast
next
  case (Inr c')
  from resolve_inputs_keys[OF Inr] assms show ?thesis by blast
qed

lemma resolve_inputs_other:
  "resolve_inputs E self lk c xs = Inr c' \<Longrightarrow> nm \<notin> fst ` set xs \<Longrightarrow>
     map_of c' nm = map_of c nm"
proof (induction xs arbitrary: c)
  case Nil
  then show ?case by simp
next
  case (Cons x xs)
  obtain n sg where x: "x = (n, sg)" by (cases x)
  from Cons.prems x obtain port where p: "map_of lk n = Some port"
    by (auto split: option.splits)
  from Cons.prems x p obtain v where
    r: "resolve_inputs E self lk (AList.update n v c) xs = Inr c'"
    by (cases sg) (auto split: if_splits sum.splits)
  from Cons.prems x have ne: "n \<noteq> nm" "nm \<notin> fst ` set xs" by auto
  from Cons.IH[OF r ne(2)] ne(1) show ?case by (simp add: update_conv')
qed

lemma lookup_fold_keys:
  "fst ` set (foldl (\<lambda>d port. AList.update (name port) port d) d0 ps)
     = fst ` set d0 \<union> name ` set ps"
proof (induction ps arbitrary: d0)
  case Nil
  then show ?case by simp
next
  case (Cons p ps)
  have "fst ` set (AList.update (name p) p d0) = insert (name p) (fst ` set d0)"
    using dom_update[of "name p" p d0] by (simp add: dom_map_of_conv_image_fst)
  with Cons.IH[of "AList.update (name p) p d0"] show ?case by auto
qed

lemma port_input_lookup_keys:
  "fst ` set (port_input_lookup self) = name ` set (inputs self)"
  by (simp add: port_input_lookup_def lookup_fold_keys)

lemma lookup_fold_sound:
  "map_of (foldl (\<lambda>d port. AList.update (name port) port d) d0 ps) nm = Some port \<Longrightarrow>
     (port \<in> set ps \<and> name port = nm) \<or> map_of d0 nm = Some port"
proof (induction ps arbitrary: d0)
  case Nil
  then show ?case by simp
next
  case (Cons p ps)
  from Cons.IH[OF Cons.prems[simplified]] show ?case
    by (auto simp: update_conv' split: if_splits)
qed

lemma port_input_lookup_sound:
  "map_of (port_input_lookup self) nm = Some port \<Longrightarrow>
     port \<in> set (inputs self) \<and> name port = nm"
  using lookup_fold_sound[of "[]" "inputs self" nm port] by (simp add: port_input_lookup_def)


definition none_error :: "string \<Rightarrow> error" where
  "none_error nm =
     PortError (''Port '' @ nm @ '' cannot be None (disconnected ports only allowed on extern mods.'')"

definition wrong_type_error :: "string \<Rightarrow> string \<Rightarrow> string \<Rightarrow> error" where
  "wrong_type_error nm got expected =
     ValueError (''Wrong type on input signal '' @ [CHR 0x27] @ nm @ [CHR 0x27]
       @ ''. Got '' @ [CHR 0x27] @ got @ [CHR 0x27]
       @ '', expected '' @ [CHR 0x27] @ expected @ [CHR 0x27])"

definition missing_error :: "string list \<Rightarrow> error" where
  "missing_error missing =
     ValueError (''Missing input signals for ports: '' @ str_join '', '' missing)"

definition unknown_port_error :: "string \<Rightarrow> error" where
  "unknown_port_error nm = PortError (''Input port '' @ nm @ '' not found in module'')"

text \<open>
  C5 (as stated). A definition with a generation routine is instantiated with a signal of
  the wrong type for \<open>lhs\<close> and an absent value for \<open>rhs\<close>. The supplied entries are
  processed in order, so the instantiation fails with the \<open>ValueError\<close> of the type
  mismatch, not with a port error. And a definition without generation routine that is
  supplied an absent value under a name that is not one of its input ports gets no zero
  constant: the instantiation fails with the unknown-port error.
\<close>

theorem instantiate_absent_counterexample:
  "instantiate bits_env (adder True)
     [(''lhs'', IsSignal \<lparr>sig_value = 3, sig_type = ''i1''\<rparr>), (''rhs'', IsNone)] ''add0''
   = Inl (wrong_type_error ''lhs'' ''i1'' ''i8'') \<and>
   instantiate bits_env (adder False) [(''zz'', IsNone)] ''add0''
   = Inl (unknown_port_error ''zz'')"
  by (simp add: instantiate_eval wrong_type_error_def unknown_port_error_def)

text \<open>
  C5 (amended). When a supplied input value is absent (None) for an input port and every
  entry supplied before it has been accepted: if the definition has a generation routine
  the instantiation fails with the port error naming that port; if it has none, the zero
  constant of the port's declared type is stored for that input and processing goes on
  with the remaining entries, and if the instantiation then succeeds the instance carries
  that zero constant for the port.
\<close>

theorem instantiate_absent_input:
  assumes "supplied_inputs = pre @ (nm, IsNone) # post"
    and "resolve_inputs E self (port_input_lookup self) [] pre = Inr circt"
    and "map_of (port_input_lookup self) nm = Some port"
    and "distinct (map fst supplied_inputs)"
  shows "port \<in> set (inputs self) \<and> name port = nm \<and>
         (generators self \<noteq> [] \<longrightarrow>
            instantiate E self supplied_inputs instance_name = Inl (none_error nm)) \<and>
         (generators self = [] \<longrightarrow>
            resolve_inputs E self (port_input_lookup self) [] supplied_inputs =
              resolve_inputs E self (port_input_lookup self)
                (AList.update nm (sig_value (create_const_zero E (decl_type port))) circt) post \<and>
            (\<forall>inst. instantiate E self supplied_inputs instance_name = Inr inst \<longrightarrow>
               map_of (inst_inputs inst) nm
                 = Some (sig_value (create_const_zero E (decl_type port)))))"
proof -
  let ?lk = "port_input_lookup self"
  let ?z = "sig_value (create_const_zero E (decl_type port))"
  have a: "port \<in> set (inputs self) \<and> name port = nm"
    using assms(3) by (rule port_input_lookup_sound)
  have step: "resolve_inputs E self ?lk [] supplied_inputs =
                resolve_inputs E self ?lk circt ((nm, IsNone) # post)"
    using assms(1,2) by (simp add: resolve_inputs_append)
  have b: "generators self \<noteq> [] \<longrightarrow>
             instantiate E self supplied_inputs instance_name = Inl (none_error nm)"
    using step assms(3) by (simp add: instantiate_def none_error_def)
  have c1: "generators self = [] \<longrightarrow>
              resolve_inputs E self ?lk [] supplied_inputs =
                resolve_inputs E self ?lk (AList.update nm ?z circt) post"
    using step assms(3) by simp
  have c2: "generators self = [] \<longrightarrow>
              (\<forall>inst. instantiate E self supplied_inputs instance_name = Inr inst \<longrightarrow>
                 map_of (inst_inputs inst) nm = Some ?z)"
  proof (intro impI allI)
    fix inst
    assume g: "generators self = []"
      and i: "instantiate E self supplied_inputs instance_name = Inr inst"
    from i obtain c' where c': "resolve_inputs E self ?lk [] supplied_inputs = Inr c'"
      "inst_inputs inst = c'"
      by (auto simp: instantiate_def Let_def split: sum.splits if_splits)
    from c1 g c'(1) have r: "resolve_inputs E self ?lk (AList.update nm ?z circt) post = Inr c'"
      by simp
    from assms(1,4) have "nm \<notin> fst ` set post" by auto
    from resolve_inputs_other[OF r this] c'(2) show "map_of (inst_inputs inst) nm = Some ?z"
      by (simp add: update_conv')
  qed
  from a b c1 c2 show ?thesis by blast
qed

theorem instantiate_absent_input_witness:
  "instantiate bits_env (adder True)
     [(''lhs'', IsSignal \<lparr>sig_value = 3, sig_type = ''i8''\<rparr>), (''rhs'', IsNone)] ''add0''
     = Inl (none_error ''rhs'') \<and>
   instantiate bits_env (adder False)
     [(''lhs'', IsSignal \<lparr>sig_value = 3, sig_type = ''i8''\<rparr>), (''rhs'', IsNone)] ''add0''
     = Inr \<lparr>inst_name = ''add0'', inst_inputs = [(''lhs'', 3), (''rhs'', 0)],
            inst_parameters = []\<rparr>"
proof -
  let ?pre = "[(''lhs'', IsSignal \<lparr>sig_value = 3::nat, sig_type = ''i8''\<rparr>)]"
  let ?rhs = "\<lparr>decl_cls = InputCls, decl_type = ''i8'', idx = 1, name = ''rhs''\<rparr>"
  have h1: "?pre @ [(''rhs'', IsNone)] = ?pre @ (''rhs'', IsNone) # []" by simp
  have h2: "resolve_inputs bits_env (adder g) (port_input_lookup (adder g)) [] ?pre
              = Inr [(''lhs'', 3)]" for g
    by (simp add: instantiate_eval)
  have h3: "map_of (port_input_lookup (adder g)) ''rhs'' = Some ?rhs" for g
    by (simp add: instantiate_eval)
  have h4: "distinct (map fst (?pre @ [(''rhs'', IsNone)]))" by simp
  have g: "generators (adder True) \<noteq> []" by (simp add: adder_def)
  from instantiate_absent_input[OF h1 h2 h3 h4, of True "''add0''"] g
  have "instantiate bits_env (adder True) (?pre @ [(''rhs'', IsNone)]) ''add0''
          = Inl (none_error ''rhs'')" by blast
  moreover have "instantiate bits_env (adder False) (?pre @ [(''rhs'', IsNone)]) ''add0''
     = Inr \<lparr>inst_name = ''add0'', inst_inputs = [(''lhs'', 3), (''rhs'', 0)],
            inst_parameters = []\<rparr>"
    by (simp add: instantiate_eval)
  ultimately show ?thesis by simp
qed


text \<open>
  C6 (as stated). Only \<open>rhs\<close> is supplied, a valid input port name, with a signal of the
  wrong type; \<open>lhs\<close> receives no value. The instantiation fails with the type mismatch
  raised while the supplied entries are processed, not with the missing-input error.
\<close>

theorem instantiate_missing_counterexample:
  "instantiate bits_env (adder True)
     [(''rhs'', IsSignal \<lparr>sig_value = 3, sig_type = ''i1''\<rparr>)] ''add0''
   = Inl (wrong_type_error ''rhs'' ''i1'' ''i8'') \<and>
   fst ` set [(''rhs'', IsSignal \<lparr>sig_value = 3::nat, sig_type = ''i1''\<rparr>)]
     \<subseteq> name ` set (inputs (adder True)) \<and>
   ''lhs'' \<in> name ` set (inputs (adder True))"
  by (simp add: instantiate_eval wrong_type_error_def)

text \<open>
  C6 (amended). When every supplied entry is accepted (its name is an input port and its
  value passes the per-entry checks) but one or more input ports receive no resolved
  value, instantiation fails with the missing-input \<open>ValueError\<close> whose message lists,
  separated by \<open>", "\<close>, every input port name that was not supplied, in port order: the
  full set of missing names, not just the first.
\<close>

theorem instantiate_missing_inputs:
  assumes "resolve_inputs E self (port_input_lookup self) [] supplied_inputs = Inr circt"
    and "\<exists>p \<in> set (inputs self). name p \<notin> fst ` set supplied_inputs"
  shows "instantiate E self supplied_inputs instance_name =
           Inl (missing_error
                  (filter (\<lambda>nm. nm \<notin> fst ` set supplied_inputs) (map fst (port_input_lookup self)))) \<and>
         set (filter (\<lambda>nm. nm \<notin> fst ` set supplied_inputs) (map fst (port_input_lookup self)))
           = name ` set (inputs self) - fst ` set supplied_inputs"
proof -
  let ?lk = "port_input_lookup self"
  from resolve_inputs_keys[OF assms(1)] have k: "fst ` set circt = fst ` set supplied_inputs"
    by simp
  have n: "map_of circt nm = None \<longleftrightarrow> nm \<notin> fst ` set supplied_inputs" for nm
    using k by (simp add: map_of_eq_None_iff)
  have m: "missing_inputs ?lk circt
             = filter (\<lambda>nm. nm \<notin> fst ` set supplied_inputs) (map fst ?lk)"
    unfolding missing_inputs_def using n by simp
  have s: "set (filter (\<lambda>nm. nm \<notin> fst ` set supplied_inputs) (map fst ?lk))
             = name ` set (inputs self) - fst ` set supplied_inputs"
    using port_input_lookup_keys[of self] by auto
  from assms(2) s have ne: "filter (\<lambda>nm. nm \<notin> fst ` set supplied_inputs) (map fst ?lk) \<noteq> []"
    by (metis Diff_iff empty_iff image_eqI list.set(1))
  have "instantiate E self supplied_inputs instance_name =
           Inl (missing_error (filter (\<lambda>nm. nm \<notin> fst ` set supplied_inputs) (map fst ?lk)))"
    using assms(1) m ne by (simp add: instantiate_def missing_error_def Let_def)
  with s show ?thesis by blast
qed

theorem instantiate_missing_inputs_witness:
  "resolve_inputs bits_env (adder True) (port_input_lookup (adder True)) []
      ([] :: (string \<times> (nat, string, nat) supplied) list) = Inr [] \<and>
   instantiate bits_env (adder True) [] ''add0'' = Inl (missing_error [''lhs'', ''rhs'']) \<and>
   missing_error [''lhs'', ''rhs''] = ValueError ''Missing input signals for ports: lhs, rhs''"
proof -
  have h1: "resolve_inputs bits_env (adder True) (port_input_lookup (adder True)) []
      ([] :: (string \<times> (nat, string, nat) supplied) list) = Inr []" by simp
  have h2: "\<exists>p \<in> set (inputs (adder True)).
              name p \<notin> fst ` set ([] :: (string \<times> (nat, string, nat) supplied) list)"
    by (auto simp: inputs_def adder_def isinstance_Input_def)
  from instantiate_missing_inputs[OF h1 h2, of "''add0''"]
  have "instantiate bits_env (adder True) [] ''add0'' = Inl (missing_error [''lhs'', ''rhs''])"
    by (simp add: instantiate_eval)
  with h1 show ?thesis by (simp add: missing_error_def)
qed

text \<open>
  C10 (as stated). The supplied map contains the unknown name \<open>zz\<close>, but the entry
  before it carries a signal of the wrong type: the instantiation fails with that
  \<open>ValueError\<close>, not with the port error naming \<open>zz\<close>.
\<close>

theorem instantiate_unknown_counterexample:
  "instantiate bits_env (adder True)
     [(''lhs'', IsSignal \<lparr>sig_value = 3, sig_type = ''i1''\<rparr>),
      (''zz'', IsSignal \<lparr>sig_value = 4, sig_type = ''i8''\<rparr>)] ''add0''
   = Inl (wrong_type_error ''lhs'' ''i1'' ''i8'') \<and>
   ''zz'' \<notin> name ` set (inputs (adder True))"
  by (simp add: instantiate_eval wrong_type_error_def)

text \<open>
  C10 (amended). Supplied names are validated in iteration order before missing inputs are
  detected: if the supplied input map contains a name that is not an input port of the
  definition, instantiation fails with the error raised while the supplied entries are
  processed, never reaching the missing-input check, even when required input ports are
  also missing; when every entry supplied before the unknown name is accepted, that error
  is the port error naming the unknown port.
\<close>

theorem instantiate_unknown_name_first:
  assumes "nm \<in> fst ` set supplied_inputs"
    and "nm \<notin> name ` set (inputs self)"
  shows "(\<exists>e. resolve_inputs E self (port_input_lookup self) [] supplied_inputs = Inl e \<and>
              instantiate E self supplied_inputs instance_name = Inl e) \<and>
         (\<forall>pre sg post circt.
            supplied_inputs = pre @ (nm, sg) # post \<and>
            resolve_inputs E self (port_input_lookup self) [] pre = Inr circt \<longrightarrow>
            instantiate E self supplied_inputs instance_name = Inl (unknown_port_error nm))"
proof -
  let ?lk = "port_input_lookup self"
  have u: "map_of ?lk nm = None"
    using assms(2) port_input_lookup_keys[of self] by (simp add: map_of_eq_None_iff)
  from resolve_inputs_unknown[OF assms(1) u] obtain e where
    e: "resolve_inputs E self ?lk [] supplied_inputs = Inl e" by blast
  then have a: "\<exists>e. resolve_inputs E self ?lk [] supplied_inputs = Inl e \<and>
              instantiate E self supplied_inputs instance_name = Inl e"
    by (simp add: instantiate_def)
  have b: "instantiate E self supplied_inputs instance_name = Inl (unknown_port_error nm)"
    if "supplied_inputs = pre @ (nm, sg) # post"
      and "resolve_inputs E self ?lk [] pre = Inr circt" for pre sg post circt
    using that u by (simp add: instantiate_def resolve_inputs_append unknown_port_error_def)
  from a b show ?thesis by blast
qed

theorem instantiate_unknown_name_first_witness:
  "''zz'' \<in> fst ` set [(''lhs'', IsSignal \<lparr>sig_value = 3::nat, sig_type = ''i8''\<rparr>),
                        (''zz'', IsSignal \<lparr>sig_value = 4, sig_type = ''i8''\<rparr>)] \<and>
   ''zz'' \<notin> name ` set (inputs (adder True)) \<and>
   instantiate bits_env (adder True)
     [(''lhs'', IsSignal \<lparr>sig_value = 3, sig_type = ''i8''\<rparr>),
      (''zz'', IsSignal \<lparr>sig_value = 4, sig_type = ''i8''\<rparr>)] ''add0''
   = Inl (unknown_port_error ''zz'')"
proof -
  let ?pre = "[(''lhs'', IsSignal \<lparr>sig_value = 3::nat, sig_type = ''i8''\<rparr>)]"
  let ?zz = "(''zz'', IsSignal \<lparr>sig_value = 4::nat, sig_type = ''i8''\<rparr>)"
  have h1: "''zz'' \<in> fst ` set (?pre @ [?zz])" by simp
  have h2: "''zz'' \<notin> name ` set (inputs (adder True))"
    by (simp add: inputs_def adder_def isinstance_Input_def)
  have h3: "?pre @ [?zz] = ?pre @ ?zz # [] \<and>
            resolve_inputs bits_env (adder True) (port_input_lookup (adder True)) [] ?pre
              = Inr [(''lhs'', 3)]"
    by (simp add: instantiate_eval)
  note t = instantiate_unknown_name_first[OF h1 h2, of bits_env "''add0''", THEN conjunct2,
      rule_format, of ?pre "IsSignal \<lparr>sig_value = 4::nat, sig_type = ''i8''\<rparr>" "[]"
      "[(''lhs'', 3)]"]
  have "instantiate bits_env (adder True) (?pre @ [?zz]) ''add0'' = Inl (unknown_port_error ''zz'')"
    by (rule t) (rule h3)
  with h1 h2 show ?thesis by simp
qed



section \<open>Class scanner\<close>

text \<open>
  \<open>ModuleLikeBuilderBase.scan_cls\<close>. The class dictionary is the list of its items in
  declaration order. \<open>scan_cls\<close> writes \<open>idx\<close> and \<open>name\<close> into the port marker objects
  themselves, so markers live in a store (\<open>addr \<Rightarrow> 't ModuleDecl\<close>) and the dictionary
  refers to them by address: two names may be bound to one marker. A value of the
  dictionary is a port marker, a \<open>Generator\<close>, a \<open>Constant\<close>, a sequence of attribute
  entries (what \<open>Attributes\<close> is meant to hold: pairs and plain names), or anything else.
  \<open>scan_state\<close> holds the local variables of the loop together with the store and
  \<open>self.attributes\<close>; \<open>scan_port\<close> is the part of the loop body that applies to a
  marker, \<open>scan_item\<close> the whole body, \<open>scan_items\<close> the loop. \<open>_obj_to_attribute\<close>
  is a parameter and may raise. \<open>snapshot\<close> reads the markers of a builder out of the
  store, which is what \<open>inputs\<close>, \<open>outputs\<close> and every later use of the ports see.
\<close>


type_synonym addr = nat

datatype 'v attr_item = TupleItem string 'v | PlainItem string

datatype ('g, 'k, 'v) declared =
    PortMarker addr
  | GeneratorObj 'g
  | ConstantObj 'k
  | ItemSeq "'v attr_item list"
  | OtherObj

record ('t, 'g, 'k, 'a) scan_state =
  heap :: "addr \<Rightarrow> 't ModuleDecl"
  self_attributes :: "(string \<times> 'a mod_attribute) list"
  loc_ports :: "addr list"
  clock_ports :: "nat set"
  reset_ports :: "nat set"
  loc_generators :: "(string \<times> 'g) list"
  loc_constants :: "(string \<times> 'k) list"
  num_inputs :: nat
  num_outputs :: nat

fun tuple_attributes ::
  "('v \<Rightarrow> error + 'a) \<Rightarrow> 'v attr_item list \<Rightarrow> (string \<times> 'a mod_attribute) list
     \<Rightarrow> error + (string \<times> 'a mod_attribute) list" where
  "tuple_attributes obj_to_attribute [] d = Inr d"
| "tuple_attributes obj_to_attribute (TupleItem k v # rest) d =
     (case obj_to_attribute v of
        Inl e \<Rightarrow> Inl e
      | Inr a \<Rightarrow> tuple_attributes obj_to_attribute rest (AList.update k (Attr a) d))"
| "tuple_attributes obj_to_attribute (PlainItem k # rest) d =
     tuple_attributes obj_to_attribute rest d"

fun unit_attributes ::
  "'v attr_item list \<Rightarrow> (string \<times> 'a mod_attribute) list \<Rightarrow> (string \<times> 'a mod_attribute) list" where
  "unit_attributes [] d = d"
| "unit_attributes (TupleItem k v # rest) d = unit_attributes rest d"
| "unit_attributes (PlainItem k # rest) d = unit_attributes rest (AList.update k UnitAttr d)"

definition scan_port ::
  "string \<Rightarrow> addr \<Rightarrow> ('t, 'g, 'k, 'a) scan_state \<Rightarrow> ('t, 'g, 'k, 'a) scan_state" where
  "scan_port attr_name a st =
     (let c = decl_cls (heap st a);
          st1 = (if isinstance_Clock c
                 then st\<lparr>clock_ports := insert (num_inputs st) (clock_ports st)\<rparr>
                 else if isinstance_Reset c
                 then st\<lparr>reset_ports := insert (num_inputs st) (reset_ports st)\<rparr>
                 else st)
      in if isinstance_Input c
         then st1\<lparr>heap := (heap st1)(a := (heap st1 a)\<lparr>idx := num_inputs st1, name := attr_name\<rparr>),
                  num_inputs := num_inputs st1 + 1,
                  loc_ports := loc_ports st1 @ [a]\<rparr>
         else if isinstance_Output c
         then st1\<lparr>heap := (heap st1)(a := (heap st1 a)\<lparr>idx := num_outputs st1, name := attr_name\<rparr>),
                  num_outputs := num_outputs st1 + 1,
                  loc_ports := loc_ports st1 @ [a]\<rparr>
         else st1)"

definition scan_item ::
  "('v \<Rightarrow> error + 'a) \<Rightarrow> string \<times> ('g, 'k, 'v) declared \<Rightarrow> ('t, 'g, 'k, 'a) scan_state
     \<Rightarrow> error + ('t, 'g, 'k, 'a) scan_state" where
  "scan_item obj_to_attribute item st =
     (case item of (attr_name, attr) \<Rightarrow>
        if startswith attr_name ''_'' then Inr st
        else if attr_name = ''Attributes'' then
          (case attr of
             ItemSeq mod_attrs \<Rightarrow>
               (case tuple_attributes obj_to_attribute mod_attrs [] of
                  Inl e \<Rightarrow> Inl e
                | Inr d \<Rightarrow> Inr (st\<lparr>self_attributes := unit_attributes mod_attrs d\<rparr>))
           | _ \<Rightarrow> Inl (TypeError ''object is not iterable''))
        else
          (case attr of
             PortMarker a \<Rightarrow> Inr (scan_port attr_name a st)
           | GeneratorObj g \<Rightarrow>
               Inr (st\<lparr>loc_generators := AList.update attr_name g (loc_generators st)\<rparr>)
           | ConstantObj k \<Rightarrow>
               Inr (st\<lparr>loc_constants := AList.update attr_name k (loc_constants st)\<rparr>)
           | _ \<Rightarrow> Inr st))"

fun scan_items ::
  "('v \<Rightarrow> error + 'a) \<Rightarrow> (string \<times> ('g, 'k, 'v) declared) list \<Rightarrow> ('t, 'g, 'k, 'a) scan_state
     \<Rightarrow> error + ('t, 'g, 'k, 'a) scan_state" where
  "scan_items obj_to_attribute [] st = Inr st"
| "scan_items obj_to_attribute (item # rest) st =
     (case scan_item obj_to_attribute item st of
        Inl e \<Rightarrow> Inl e
      | Inr st' \<Rightarrow> scan_items obj_to_attribute rest st')"

definition scan_cls ::
  "('v \<Rightarrow> error + 'a) \<Rightarrow> (addr, 'g, 'k, 'a) ModuleLikeBuilderBase
     \<Rightarrow> (string \<times> ('g, 'k, 'v) declared) list \<Rightarrow> (addr \<Rightarrow> 't ModuleDecl)
     \<Rightarrow> error + (addr, 'g, 'k, 'a) ModuleLikeBuilderBase \<times> (addr \<Rightarrow> 't ModuleDecl)" where
  "scan_cls obj_to_attribute self cls_dct h =
     (case scan_items obj_to_attribute cls_dct
             \<lparr>heap = h, self_attributes = attributes self, loc_ports = [],
              clock_ports = {}, reset_ports = {}, loc_generators = [], loc_constants = [],
              num_inputs = 0, num_outputs = 0\<rparr> of
        Inl e \<Rightarrow> Inl e
      | Inr st \<Rightarrow>
          Inr (self\<lparr>attributes := self_attributes st, ports := loc_ports st,
                    clocks := clock_ports st, resets := reset_ports st,
                    generators := loc_generators st, constants := loc_constants st\<rparr>,
               heap st))"

definition snapshot ::
  "(addr \<Rightarrow> 't ModuleDecl) \<Rightarrow> (addr, 'g, 'k, 'a) ModuleLikeBuilderBase
     \<Rightarrow> ('t ModuleDecl, 'g, 'k, 'a) ModuleLikeBuilderBase" where
  "snapshot h self =
     \<lparr>modcls_name = modcls_name self, modcls_module_name = modcls_module_name self,
      ports = map h (ports self), clocks = clocks self, resets = resets self,
      generators = generators self, constants = constants self,
      parameters = parameters self, attributes = attributes self\<rparr>"

definition new_builder :: "string \<Rightarrow> ('p, 'g, 'k, 'a) ModuleLikeBuilderBase" where
  "new_builder cls_name =
     \<lparr>modcls_name = cls_name, modcls_module_name = None, ports = [], clocks = {}, resets = {},
      generators = [], constants = [], parameters = None,
      attributes = [(''output_file'', OutputFileAttr (cls_name @ ''.sv''))]\<rparr>"

definition marker :: "port_class \<Rightarrow> string ModuleDecl" where
  "marker c = \<lparr>decl_cls = c, decl_type = ''i8'', idx = 0, name = ''''\<rparr>"


fun visible :: "(string \<times> ('g, 'k, 'v) declared) list \<Rightarrow> (string \<times> addr) list" where
  "visible [] = []"
| "visible ((attr_name, attr) # rest) =
     (case attr of
        PortMarker a \<Rightarrow>
          if startswith attr_name ''_'' \<or> attr_name = ''Attributes'' then visible rest
          else (attr_name, a) # visible rest
      | _ \<Rightarrow> visible rest)"

definition scan_view ::
  "('v \<Rightarrow> error + 'a) \<Rightarrow> (addr, 'g, 'k, 'a) ModuleLikeBuilderBase
     \<Rightarrow> (string \<times> ('g, 'k, 'v) declared) list \<Rightarrow> (addr \<Rightarrow> 't ModuleDecl)
     \<Rightarrow> ('t ModuleDecl, 'g, 'k, 'a) ModuleLikeBuilderBase option" where
  "scan_view obj_to_attribute self cls_dct h =
     (case scan_cls obj_to_attribute self cls_dct h of
        Inl e \<Rightarrow> None
      | Inr (self', h') \<Rightarrow> Some (snapshot h' self'))"

lemma port_class_cases: "isinstance_Output c \<longleftrightarrow> \<not> isinstance_Input c"
  by (cases c) (simp_all add: isinstance_Input_def isinstance_Output_def)

lemma clock_is_input: "isinstance_Clock c \<Longrightarrow> isinstance_Input c"
  by (simp add: isinstance_Input_def isinstance_Clock_def)

lemma scan_port_heap:
  "heap (scan_port n a st) =
     (heap st)(a := (heap st a)\<lparr>idx := (if isinstance_Input (decl_cls (heap st a))
                                         then num_inputs st else num_outputs st),
                                 name := n\<rparr>)"
  by (simp add: scan_port_def Let_def port_class_cases)

lemma scan_port_ports: "loc_ports (scan_port n a st) = loc_ports st @ [a]"
  by (simp add: scan_port_def Let_def port_class_cases)

lemma scan_port_num_inputs:
  "num_inputs (scan_port n a st) =
     (if isinstance_Input (decl_cls (heap st a)) then num_inputs st + 1 else num_inputs st)"
  by (simp add: scan_port_def Let_def port_class_cases)

lemma scan_port_num_outputs:
  "num_outputs (scan_port n a st) =
     (if isinstance_Input (decl_cls (heap st a)) then num_outputs st else num_outputs st + 1)"
  by (simp add: scan_port_def Let_def port_class_cases)

lemma scan_port_clocks:
  "clock_ports (scan_port n a st) =
     (if isinstance_Clock (decl_cls (heap st a)) then insert (num_inputs st) (clock_ports st)
      else clock_ports st)"
  by (simp add: scan_port_def Let_def port_class_cases)

lemma scan_port_rest:
  "self_attributes (scan_port n a st) = self_attributes st"
  "loc_generators (scan_port n a st) = loc_generators st"
  "loc_constants (scan_port n a st) = loc_constants st"
  by (simp_all add: scan_port_def Let_def port_class_cases)

lemma scan_port_resets:
  "reset_ports (scan_port n a st) =
     (if \<not> isinstance_Clock (decl_cls (heap st a)) \<and> isinstance_Reset (decl_cls (heap st a))
      then insert (num_inputs st) (reset_ports st) else reset_ports st)"
  by (simp add: scan_port_def Let_def port_class_cases)

lemma scan_item_cases:
  assumes "scan_item E (n, attr) st = Inr st'"
  shows "(\<exists>a. visible [(n, attr)] = [(n, a)] \<and> st' = scan_port n a st) \<or>
         (visible [(n, attr)] = [] \<and> heap st' = heap st \<and> loc_ports st' = loc_ports st \<and>
          num_inputs st' = num_inputs st \<and> num_outputs st' = num_outputs st \<and>
          clock_ports st' = clock_ports st \<and> reset_ports st' = reset_ports st)"
  using assms
  by (cases attr) (auto simp: scan_item_def split: if_splits sum.splits)

lemma visible_Cons: "visible (x # xs) = visible [x] @ visible xs"
  by (cases x) (auto split: declared.splits)

lemma visible_names:
  "(n, a) \<in> set (visible items) \<Longrightarrow> \<not> startswith n ''_'' \<and> n \<noteq> ''Attributes''"
  by (induction items rule: visible.induct) (auto split: declared.splits if_splits)


lemma scan_items_frame:
  "scan_items E items st = Inr st' \<Longrightarrow>
     loc_ports st' = loc_ports st @ map snd (visible items) \<and>
     (\<forall>a. decl_cls (heap st' a) = decl_cls (heap st a)) \<and>
     (\<forall>a. a \<notin> snd ` set (visible items) \<longrightarrow> heap st' a = heap st a) \<and>
     (\<forall>a \<in> snd ` set (visible items). name (heap st' a) \<in> fst ` set (visible items))"
proof (induction items arbitrary: st)
  case Nil
  then show ?case by simp
next
  case (Cons item rest)
  obtain n attr where item: "item = (n, attr)" by (cases item)
  from Cons.prems item obtain st1 where
    s1: "scan_item E (n, attr) st = Inr st1" and r: "scan_items E rest st1 = Inr st'"
    by (auto split: sum.splits)
  note IH = Cons.IH[OF r]
  have v: "visible (item # rest) = visible [(n, attr)] @ visible rest"
    using item visible_Cons[of item rest] by simp
  from scan_item_cases[OF s1] show ?case
  proof
    assume "\<exists>a. visible [(n, attr)] = [(n, a)] \<and> st1 = scan_port n a st"
    then obtain a where a: "visible [(n, attr)] = [(n, a)]" "st1 = scan_port n a st" by blast
    have h1: "heap st1 = (heap st)(a := (heap st a)\<lparr>idx := (if isinstance_Input (decl_cls (heap st a))
                                         then num_inputs st else num_outputs st), name := n\<rparr>)"
      using a(2) by (simp add: scan_port_heap)
    have p1: "loc_ports st1 = loc_ports st @ [a]" using a(2) by (simp add: scan_port_ports)
    have c1: "loc_ports st' = loc_ports st @ map snd (visible (item # rest))"
      using IH p1 v a(1) by simp
    have c2: "\<forall>b. decl_cls (heap st' b) = decl_cls (heap st b)"
      using IH h1 by simp
    have c3: "\<forall>b. b \<notin> snd ` set (visible (item # rest)) \<longrightarrow> heap st' b = heap st b"
      using IH h1 v a(1) by simp
    have c4: "\<forall>b \<in> snd ` set (visible (item # rest)).
                name (heap st' b) \<in> fst ` set (visible (item # rest))"
    proof
      fix b assume b: "b \<in> snd ` set (visible (item # rest))"
      show "name (heap st' b) \<in> fst ` set (visible (item # rest))"
      proof (cases "b \<in> snd ` set (visible rest)")
        case True
        with IH have "name (heap st' b) \<in> fst ` set (visible rest)" by blast
        then show ?thesis using v by auto
      next
        case False
        with b v a(1) have "b = a" by auto
        moreover from False IH have "heap st' b = heap st1 b" by blast
        ultimately have "name (heap st' b) = n" using h1 by simp
        then show ?thesis using v a(1) by simp
      qed
    qed
    from c1 c2 c3 c4 show ?thesis by blast
  next
    assume inv: "visible [(n, attr)] = [] \<and> heap st1 = heap st \<and> loc_ports st1 = loc_ports st \<and>
          num_inputs st1 = num_inputs st \<and> num_outputs st1 = num_outputs st \<and>
          clock_ports st1 = clock_ports st \<and> reset_ports st1 = reset_ports st"
    with v have "visible (item # rest) = visible rest" by simp
    with IH inv show ?thesis by simp
  qed
qed

lemma scan_items_dense:
  "scan_items E items st = Inr st' \<Longrightarrow> distinct (map snd (visible items)) \<Longrightarrow>
     map (\<lambda>a. idx (heap st' a))
         (filter (\<lambda>a. isinstance_Input (decl_cls (heap st a))) (map snd (visible items)))
       = [num_inputs st ..< num_inputs st'] \<and>
     num_inputs st \<le> num_inputs st' \<and>
     map (\<lambda>a. idx (heap st' a))
         (filter (\<lambda>a. isinstance_Output (decl_cls (heap st a))) (map snd (visible items)))
       = [num_outputs st ..< num_outputs st'] \<and>
     num_outputs st \<le> num_outputs st' \<and>
     map (\<lambda>a. name (heap st' a)) (map snd (visible items)) = map fst (visible items)"
proof (induction items arbitrary: st)
  case Nil
  then show ?case by simp
next
  case (Cons item rest)
  obtain n attr where item: "item = (n, attr)" by (cases item)
  from Cons.prems(1) item obtain st1 where
    s1: "scan_item E (n, attr) st = Inr st1" and r: "scan_items E rest st1 = Inr st'"
    by (auto split: sum.splits)
  have v: "visible (item # rest) = visible [(n, attr)] @ visible rest"
    using item visible_Cons[of item rest] by simp
  from Cons.prems(2) v have dr: "distinct (map snd (visible rest))" by simp
  note IH = Cons.IH[OF r dr]
  note fr = scan_items_frame[OF r]
  from scan_item_cases[OF s1] show ?case
  proof
    assume "\<exists>a. visible [(n, attr)] = [(n, a)] \<and> st1 = scan_port n a st"
    then obtain a where a: "visible [(n, attr)] = [(n, a)]" "st1 = scan_port n a st" by blast
    let ?inp = "isinstance_Input (decl_cls (heap st a))"
    have vv: "visible (item # rest) = (n, a) # visible rest" using v a(1) by simp
    from Cons.prems(2) vv have an: "a \<notin> snd ` set (visible rest)" by simp
    have h1: "heap st1 = (heap st)(a := (heap st a)\<lparr>idx := (if ?inp
                                         then num_inputs st else num_outputs st), name := n\<rparr>)"
      using a(2) by (simp add: scan_port_heap)
    have cl: "decl_cls (heap st1 b) = decl_cls (heap st b)" for b using h1 by simp
    have fa: "heap st' a = heap st1 a" using fr an by blast
    have na: "name (heap st' a) = n" using fa h1 by simp
    have ia: "idx (heap st' a) = (if ?inp then num_inputs st else num_outputs st)"
      using fa h1 by simp
    have ni: "num_inputs st1 = (if ?inp then num_inputs st + 1 else num_inputs st)"
      using a(2) by (simp add: scan_port_num_inputs)
    have no: "num_outputs st1 = (if ?inp then num_outputs st else num_outputs st + 1)"
      using a(2) by (simp add: scan_port_num_outputs)
    show ?thesis
    proof (cases ?inp)
      case True
      then have o: "\<not> isinstance_Output (decl_cls (heap st a))" by (simp add: port_class_cases)
      from IH ni True have le: "num_inputs st < num_inputs st'" by simp
      then have "[num_inputs st ..< num_inputs st'] = num_inputs st # [num_inputs st1 ..< num_inputs st']"
        using ni True by (simp add: upt_conv_Cons)
      with IH True o ia na vv no le show ?thesis by (simp add: cl)
    next
      case False
      then have o: "isinstance_Output (decl_cls (heap st a))" by (simp add: port_class_cases)
      from IH no False have le: "num_outputs st < num_outputs st'" by simp
      then have "[num_outputs st ..< num_outputs st'] = num_outputs st # [num_outputs st1 ..< num_outputs st']"
        using no False by (simp add: upt_conv_Cons)
      with IH False o ia na vv ni le show ?thesis by (simp add: cl)
    qed
  next
    assume inv: "visible [(n, attr)] = [] \<and> heap st1 = heap st \<and> loc_ports st1 = loc_ports st \<and>
          num_inputs st1 = num_inputs st \<and> num_outputs st1 = num_outputs st \<and>
          clock_ports st1 = clock_ports st \<and> reset_ports st1 = reset_ports st"
    with v have "visible (item # rest) = visible rest" by simp
    with IH inv show ?thesis by simp
  qed
qed


definition agree :: "('t, 'g, 'k, 'a) scan_state \<Rightarrow> ('t, 'g, 'k, 'a) scan_state \<Rightarrow> bool" where
  "agree s t \<longleftrightarrow>
     loc_ports s = loc_ports t \<and> clock_ports s = clock_ports t \<and> reset_ports s = reset_ports t \<and>
     loc_generators s = loc_generators t \<and> loc_constants s = loc_constants t \<and>
     num_inputs s = num_inputs t \<and> num_outputs s = num_outputs t \<and>
     (\<forall>a. decl_cls (heap s a) = decl_cls (heap t a) \<and> decl_type (heap s a) = decl_type (heap t a))"

lemma scan_port_agree:
  assumes "agree s t"
  shows "agree (scan_port n a s) (scan_port n a t) \<and>
         heap (scan_port n a s) a = heap (scan_port n a t) a \<and>
         (\<forall>b. heap s b = heap t b \<longrightarrow> heap (scan_port n a s) b = heap (scan_port n a t) b)"
proof -
  from assms have c: "decl_cls (heap s a) = decl_cls (heap t a)"
    and ty: "decl_type (heap s a) = decl_type (heap t a)"
    and ni: "num_inputs s = num_inputs t" and no: "num_outputs s = num_outputs t"
    by (simp_all add: agree_def)
  have e: "(heap s a)\<lparr>idx := i, name := n\<rparr> = (heap t a)\<lparr>idx := i, name := n\<rparr>" for i
    using c ty by (intro ModuleDecl.equality) simp_all
  have h: "heap (scan_port n a s) a = heap (scan_port n a t) a"
    unfolding scan_port_heap using c ni no e by simp
  have f: "\<forall>b. heap s b = heap t b \<longrightarrow> heap (scan_port n a s) b = heap (scan_port n a t) b"
    unfolding scan_port_heap using c ni no e by simp
  have "agree (scan_port n a s) (scan_port n a t)"
    using assms unfolding agree_def
    by (simp add: scan_port_heap scan_port_ports scan_port_num_inputs scan_port_num_outputs
        scan_port_clocks scan_port_resets scan_port_rest)
  with h f show ?thesis by blast
qed

lemma scan_item_agree:
  assumes "scan_item E item s = Inr s1" and "agree s t"
  shows "\<exists>t1. scan_item E item t = Inr t1 \<and> agree s1 t1 \<and>
           (\<forall>b. heap s b = heap t b \<longrightarrow> heap s1 b = heap t1 b) \<and>
           (\<forall>b \<in> snd ` set (visible [item]). heap s1 b = heap t1 b)"
proof -
  obtain n attr where item: "item = (n, attr)" by (cases item)
  from scan_item_cases[OF assms(1)[unfolded item]] show ?thesis
  proof
    assume "\<exists>a. visible [(n, attr)] = [(n, a)] \<and> s1 = scan_port n a s"
    then obtain a where a: "visible [(n, attr)] = [(n, a)]" "s1 = scan_port n a s" by blast
    from a(1) have at: "attr = PortMarker a" "\<not> startswith n ''_''" "n \<noteq> ''Attributes''"
      by (auto split: declared.splits if_splits)
    then have "scan_item E item t = Inr (scan_port n a t)"
      using item by (simp add: scan_item_def)
    with scan_port_agree[OF assms(2), of n a] a item show ?thesis by simp
  next
    assume inv: "visible [(n, attr)] = [] \<and> heap s1 = heap s \<and> loc_ports s1 = loc_ports s \<and>
          num_inputs s1 = num_inputs s \<and> num_outputs s1 = num_outputs s \<and>
          clock_ports s1 = clock_ports s \<and> reset_ports s1 = reset_ports s"
    have "\<exists>t1. scan_item E item t = Inr t1 \<and> agree s1 t1 \<and> heap t1 = heap t"
      using assms inv item
      by (cases attr)
         (auto simp: scan_item_def agree_def split: if_splits sum.splits)
    with inv item show ?thesis by auto
  qed
qed

lemma scan_items_agree:
  "scan_items E items s = Inr s' \<Longrightarrow> agree s t \<Longrightarrow>
     \<exists>t'. scan_items E items t = Inr t' \<and> agree s' t' \<and>
       (\<forall>b. heap s b = heap t b \<longrightarrow> heap s' b = heap t' b) \<and>
       (\<forall>b \<in> snd ` set (visible items). heap s' b = heap t' b)"
proof (induction items arbitrary: s t)
  case Nil
  then show ?case by simp
next
  case (Cons item rest)
  from Cons.prems(1) obtain s1 where
    s1: "scan_item E item s = Inr s1" and r: "scan_items E rest s1 = Inr s'"
    by (auto split: sum.splits)
  from scan_item_agree[OF s1 Cons.prems(2)] obtain t1 where
    t1: "scan_item E item t = Inr t1" "agree s1 t1"
      "\<forall>b. heap s b = heap t b \<longrightarrow> heap s1 b = heap t1 b"
      "\<forall>b \<in> snd ` set (visible [item]). heap s1 b = heap t1 b" by blast
  from Cons.IH[OF r t1(2)] obtain t' where
    t': "scan_items E rest t1 = Inr t'" "agree s' t'"
      "\<forall>b. heap s1 b = heap t1 b \<longrightarrow> heap s' b = heap t' b"
      "\<forall>b \<in> snd ` set (visible rest). heap s' b = heap t' b" by blast
  have v: "visible (item # rest) = visible [item] @ visible rest" by (rule visible_Cons)
  have "scan_items E (item # rest) t = Inr t'" using t1(1) t'(1) by simp
  moreover have "\<forall>b. heap s b = heap t b \<longrightarrow> heap s' b = heap t' b" using t1(3) t'(3) by blast
  moreover have "\<forall>b \<in> snd ` set (visible (item # rest)). heap s' b = heap t' b"
    using v t1(4) t'(3,4) by auto
  ultimately show ?case using t'(2) by blast
qed

definition has_attributes :: "(string \<times> ('g, 'k, 'v) declared) list \<Rightarrow> bool" where
  "has_attributes items \<longleftrightarrow> ''Attributes'' \<in> fst ` set items"

lemma scan_items_attributes:
  "scan_items E items s = Inr s' \<Longrightarrow> scan_items E items t = Inr t' \<Longrightarrow>
     (if has_attributes items then self_attributes t' = self_attributes s'
      else self_attributes s' = self_attributes s \<and> self_attributes t' = self_attributes t)"
proof (induction items arbitrary: s t)
  case Nil
  then show ?case by (simp add: has_attributes_def)
next
  case (Cons item rest)
  obtain n attr where item: "item = (n, attr)" by (cases item)
  from Cons.prems(1) obtain s1 where
    s1: "scan_item E item s = Inr s1" and rs: "scan_items E rest s1 = Inr s'"
    by (auto split: sum.splits)
  from Cons.prems(2) obtain t1 where
    t1: "scan_item E item t = Inr t1" and rt: "scan_items E rest t1 = Inr t'"
    by (auto split: sum.splits)
  note IH = Cons.IH[OF rs rt]
  show ?case
  proof (cases "n = ''Attributes''")
    case True
    then have "self_attributes s1 = self_attributes t1"
      using s1 t1 item
      by (auto simp: scan_item_def startswith_def split: declared.splits sum.splits)
    moreover have "has_attributes (item # rest)" using True item by (simp add: has_attributes_def)
    ultimately show ?thesis using IH by (auto split: if_splits)
  next
    case False
    then have "self_attributes s1 = self_attributes s" "self_attributes t1 = self_attributes t"
      using s1 t1 item
      by (auto simp: scan_item_def scan_port_rest split: declared.splits sum.splits if_splits)
    moreover have "has_attributes (item # rest) = has_attributes rest"
      using False item by (simp add: has_attributes_def)
    ultimately show ?thesis using IH by (auto split: if_splits)
  qed
qed


lemma scan_items_types:
  "scan_items E items st = Inr st' \<Longrightarrow> decl_type (heap st' a) = decl_type (heap st a)"
proof (induction items arbitrary: st)
  case Nil
  then show ?case by simp
next
  case (Cons item rest)
  obtain n attr where item: "item = (n, attr)" by (cases item)
  from Cons.prems item obtain st1 where
    s1: "scan_item E (n, attr) st = Inr st1" and r: "scan_items E rest st1 = Inr st'"
    by (auto split: sum.splits)
  from scan_item_cases[OF s1] have "decl_type (heap st1 a) = decl_type (heap st a)"
    by (auto simp: scan_port_heap)
  with Cons.IH[OF r] show ?case by simp
qed

lemma scan_items_clocks:
  "scan_items E items st = Inr st' \<Longrightarrow> finite (clock_ports st) \<Longrightarrow>
   \<forall>i \<in> clock_ports st. i < num_inputs st \<Longrightarrow>
     finite (clock_ports st') \<and> (\<forall>i \<in> clock_ports st'. i < num_inputs st') \<and>
     card (clock_ports st') = card (clock_ports st) +
       length (filter (\<lambda>a. isinstance_Clock (decl_cls (heap st a))) (map snd (visible items)))"
proof (induction items arbitrary: st)
  case Nil
  then show ?case by simp
next
  case (Cons item rest)
  obtain n attr where item: "item = (n, attr)" by (cases item)
  from Cons.prems(1) item obtain st1 where
    s1: "scan_item E (n, attr) st = Inr st1" and r: "scan_items E rest st1 = Inr st'"
    by (auto split: sum.splits)
  have v: "visible (item # rest) = visible [(n, attr)] @ visible rest"
    using item visible_Cons[of item rest] by simp
  from scan_item_cases[OF s1] show ?case
  proof
    assume "\<exists>a. visible [(n, attr)] = [(n, a)] \<and> st1 = scan_port n a st"
    then obtain a where a: "visible [(n, attr)] = [(n, a)]" "st1 = scan_port n a st" by blast
    let ?clk = "isinstance_Clock (decl_cls (heap st a))"
    have cl: "decl_cls (heap st1 b) = decl_cls (heap st b)" for b
      using a(2) by (simp add: scan_port_heap)
    have fresh: "num_inputs st \<notin> clock_ports st" using Cons.prems(3) by auto
    have c1: "clock_ports st1 = (if ?clk then insert (num_inputs st) (clock_ports st)
                                 else clock_ports st)"
      using a(2) by (simp add: scan_port_clocks)
    have n1: "num_inputs st1 = (if isinstance_Input (decl_cls (heap st a))
                                then num_inputs st + 1 else num_inputs st)"
      using a(2) by (simp add: scan_port_num_inputs)
    have f1: "finite (clock_ports st1)" using c1 Cons.prems(2) by simp
    have b1: "\<forall>i \<in> clock_ports st1. i < num_inputs st1"
      using c1 n1 Cons.prems(3) clock_is_input[of "decl_cls (heap st a)"] by auto
    have k1: "card (clock_ports st1) = card (clock_ports st) + (if ?clk then 1 else 0)"
      using c1 fresh Cons.prems(2) by simp
    from Cons.IH[OF r f1 b1] k1 v a(1) show ?thesis by (simp add: cl)
  next
    assume inv: "visible [(n, attr)] = [] \<and> heap st1 = heap st \<and> loc_ports st1 = loc_ports st \<and>
          num_inputs st1 = num_inputs st \<and> num_outputs st1 = num_outputs st \<and>
          clock_ports st1 = clock_ports st \<and> reset_ports st1 = reset_ports st"
    with v have vv: "visible (item # rest) = visible rest" by simp
    from inv Cons.prems have "finite (clock_ports st1)" "\<forall>i \<in> clock_ports st1. i < num_inputs st1"
      by simp_all
    from Cons.IH[OF r this] inv vv show ?thesis by simp
  qed
qed

definition scan_init ::
  "(addr \<Rightarrow> 't ModuleDecl) \<Rightarrow> (string \<times> 'a mod_attribute) list \<Rightarrow> ('t, 'g, 'k, 'a) scan_state" where
  "scan_init h attrs =
     \<lparr>heap = h, self_attributes = attrs, loc_ports = [],
      clock_ports = {}, reset_ports = {}, loc_generators = [], loc_constants = [],
      num_inputs = 0, num_outputs = 0\<rparr>"

lemma scan_cls_unfold:
  "scan_cls E self cls_dct h = Inr (self', h') \<longleftrightarrow>
     (\<exists>st. scan_items E cls_dct (scan_init h (attributes self)) = Inr st \<and>
        self' = self\<lparr>attributes := self_attributes st, ports := loc_ports st,
                    clocks := clock_ports st, resets := reset_ports st,
                    generators := loc_generators st, constants := loc_constants st\<rparr> \<and>
        h' = heap st)"
  by (auto simp: scan_cls_def scan_init_def split: sum.splits)

lemma scan_cls_idem:
  fixes self :: "(addr, 'g, 'k, 'a) ModuleLikeBuilderBase" and h :: "addr \<Rightarrow> 't ModuleDecl"
  assumes "scan_cls E self cls_dct h = Inr (self', h')"
  shows "scan_cls E self' cls_dct h' = Inr (self', h')"
proof -
  let ?s0 = "scan_init h (attributes self) :: ('t, 'g, 'k, 'a) scan_state"
  from assms obtain s' where
    s': "scan_items E cls_dct ?s0 = Inr s'"
    and self': "self' = self\<lparr>attributes := self_attributes s', ports := loc_ports s',
                    clocks := clock_ports s', resets := reset_ports s',
                    generators := loc_generators s', constants := loc_constants s'\<rparr>"
    and h': "h' = heap s'"
    unfolding scan_cls_unfold by blast
  let ?t0 = "scan_init h' (attributes self') :: ('t, 'g, 'k, 'a) scan_state"
  have cls: "decl_cls (heap s' a) = decl_cls (h a)" for a
    using scan_items_frame[OF s'] by (simp add: scan_init_def)
  have ty: "decl_type (heap s' a) = decl_type (h a)" for a
    using scan_items_types[OF s', of a] by (simp add: scan_init_def)
  have ag: "agree ?s0 ?t0" using cls ty h' by (simp add: agree_def scan_init_def)
  from scan_items_agree[OF s' ag] obtain t' where
    t': "scan_items E cls_dct ?t0 = Inr t'" "agree s' t'"
      "\<forall>b \<in> snd ` set (visible cls_dct). heap s' b = heap t' b" by blast
  have "heap t' b = heap s' b" for b
  proof (cases "b \<in> snd ` set (visible cls_dct)")
    case True
    with t'(3) show ?thesis by auto
  next
    case False
    with scan_items_frame[OF t'(1)] have "heap t' b = heap ?t0 b" by blast
    then show ?thesis using h' by (simp add: scan_init_def)
  qed
  then have ht: "heap t' = h'" using h' by auto
  have at: "self_attributes t' = self_attributes s'"
    using scan_items_attributes[OF s' t'(1)] self' by (auto simp: scan_init_def split: if_splits)
  have "self'\<lparr>attributes := self_attributes t', ports := loc_ports t',
                    clocks := clock_ports t', resets := reset_ports t',
                    generators := loc_generators t', constants := loc_constants t'\<rparr> = self'"
    using t'(2) at self' by (simp add: agree_def)
  with t'(1) ht show ?thesis unfolding scan_cls_unfold by auto
qed

lemma scan_cls_inputs:
  fixes self :: "(addr, 'g, 'k, 'a) ModuleLikeBuilderBase" and h :: "addr \<Rightarrow> 't ModuleDecl"
  assumes "scan_cls E self cls_dct h = Inr (self', h')"
  shows "inputs (snapshot h' self') =
           map h' (filter (\<lambda>a. isinstance_Input (decl_cls (h a))) (map snd (visible cls_dct)))"
    and "outputs (snapshot h' self') =
           map h' (filter (\<lambda>a. isinstance_Output (decl_cls (h a))) (map snd (visible cls_dct)))"
    and "ports (snapshot h' self') = map h' (map snd (visible cls_dct))"
proof -
  let ?s0 = "scan_init h (attributes self) :: ('t, 'g, 'k, 'a) scan_state"
  from assms obtain s' where
    s': "scan_items E cls_dct ?s0 = Inr s'"
    and p: "ports self' = loc_ports s'" and h': "h' = heap s'"
    unfolding scan_cls_unfold by auto
  have cls: "decl_cls (h' a) = decl_cls (h a)" for a
    using scan_items_frame[OF s'] h' by (simp add: scan_init_def)
  have lp: "ports self' = map snd (visible cls_dct)"
    using scan_items_frame[OF s'] p by (simp add: scan_init_def)
  show "ports (snapshot h' self') = map h' (map snd (visible cls_dct))"
    using lp by (simp add: snapshot_def)
  show "inputs (snapshot h' self') =
           map h' (filter (\<lambda>a. isinstance_Input (decl_cls (h a))) (map snd (visible cls_dct)))"
    using lp cls by (simp add: inputs_def snapshot_def filter_map comp_def)
  show "outputs (snapshot h' self') =
           map h' (filter (\<lambda>a. isinstance_Output (decl_cls (h a))) (map snd (visible cls_dct)))"
    using lp cls by (simp add: outputs_def snapshot_def filter_map comp_def)
qed


definition example_dct :: "(string \<times> (unit, unit, nat) declared) list" where
  "example_dct =
     [(''__module__'', OtherObj), (''clk'', PortMarker 0), (''a'', PortMarker 1),
      (''_h'', PortMarker 4),
      (''Attributes'', ItemSeq [TupleItem ''k'' 3, PlainItem ''dont_touch'']),
      (''x'', PortMarker 2), (''b'', PortMarker 3), (''build'', GeneratorObj ())]"

definition example_heap :: "addr \<Rightarrow> string ModuleDecl" where
  "example_heap = (\<lambda>_. marker InputCls)(0 := marker ClockCls, 2 := marker OutputCls)"

lemmas scan_eval =
  scan_cls_def scan_view_def scan_item_def scan_port_def startswith_def snapshot_def
  isinstance_Input_def isinstance_Output_def isinstance_Clock_def isinstance_Reset_def
  inputs_def outputs_def marker_def new_builder_def Let_def

text \<open>
  C4 (as stated). A class body binds the same Input marker to two names, \<open>a\<close> and
  \<open>b\<close>. The scanner registers the marker twice and overwrites its index and name in
  place, so the definition has two input ports, both with index 1: not the range 0..1.
\<close>

theorem scan_cls_dense_counterexample:
  "map_option (\<lambda>b. map idx (inputs b))
     (scan_view (Inr :: nat \<Rightarrow> error + nat) (new_builder ''M'')
        [(''a'', PortMarker 0), (''b'', PortMarker 0 :: (unit, unit, nat) declared)]
        (\<lambda>_. marker InputCls))
   = Some [1, 1]"
  by (simp add: scan_eval)

text \<open>
  C4 (amended). For every definition scanned by the Class Scanner in which no port marker
  object is bound to more than one scanned attribute name, the indices of the input ports
  are 0..n_inputs-1 in declaration order, the indices of the output ports are
  0..n_outputs-1 in declaration order, and each port carries the name it was declared
  under. For every scanned definition, attributes whose names begin with an underscore
  and the reserved name \<open>Attributes\<close> are never registered as ports, and repeating the
  scan on the same declaration gives the same builder and the same indices.
\<close>

theorem scan_cls_port_indices:
  fixes self :: "(addr, 'g, 'k, 'a) ModuleLikeBuilderBase" and h :: "addr \<Rightarrow> 't ModuleDecl"
  assumes "scan_cls E self cls_dct h = Inr (self', h')"
  shows "(distinct (map snd (visible cls_dct)) \<longrightarrow>
            map idx (inputs (snapshot h' self')) = [0 ..< length (inputs (snapshot h' self'))] \<and>
            map idx (outputs (snapshot h' self')) = [0 ..< length (outputs (snapshot h' self'))] \<and>
            map name (ports (snapshot h' self')) = map fst (visible cls_dct)) \<and>
         (\<forall>p \<in> set (ports (snapshot h' self')).
            \<not> startswith (name p) ''_'' \<and> name p \<noteq> ''Attributes'') \<and>
         scan_cls E self' cls_dct h' = Inr (self', h')"
proof -
  let ?s0 = "scan_init h (attributes self) :: ('t, 'g, 'k, 'a) scan_state"
  from assms obtain s' where
    s': "scan_items E cls_dct ?s0 = Inr s'" and h': "h' = heap s'"
    unfolding scan_cls_unfold by auto
  note vw = scan_cls_inputs[OF assms]
  have dense: "map idx (inputs (snapshot h' self')) = [0 ..< length (inputs (snapshot h' self'))] \<and>
            map idx (outputs (snapshot h' self')) = [0 ..< length (outputs (snapshot h' self'))] \<and>
            map name (ports (snapshot h' self')) = map fst (visible cls_dct)"
    if d: "distinct (map snd (visible cls_dct))"
  proof -
    from scan_items_dense[OF s' d] h' have
      i: "map (\<lambda>a. idx (h' a))
            (filter (\<lambda>a. isinstance_Input (decl_cls (h a))) (map snd (visible cls_dct)))
          = [0 ..< num_inputs s']"
      and o: "map (\<lambda>a. idx (h' a))
            (filter (\<lambda>a. isinstance_Output (decl_cls (h a))) (map snd (visible cls_dct)))
          = [0 ..< num_outputs s']"
      and n: "map (\<lambda>a. name (h' a)) (map snd (visible cls_dct)) = map fst (visible cls_dct)"
      by (simp_all add: scan_init_def)
    have i': "map idx (inputs (snapshot h' self')) = [0 ..< num_inputs s']"
      using i by (simp add: vw(1) comp_def)
    have o': "map idx (outputs (snapshot h' self')) = [0 ..< num_outputs s']"
      using o by (simp add: vw(2) comp_def)
    have n': "map name (ports (snapshot h' self')) = map fst (visible cls_dct)"
      using n by (simp add: vw(3) comp_def)
    from i' have "length (inputs (snapshot h' self')) = num_inputs s'"
      by (metis length_map length_upt minus_nat.diff_0)
    moreover from o' have "length (outputs (snapshot h' self')) = num_outputs s'"
      by (metis length_map length_upt minus_nat.diff_0)
    ultimately show ?thesis using i' o' n' by simp
  qed
  have names: "\<forall>p \<in> set (ports (snapshot h' self')).
            \<not> startswith (name p) ''_'' \<and> name p \<noteq> ''Attributes''"
  proof
    fix p assume "p \<in> set (ports (snapshot h' self'))"
    then obtain a where a: "a \<in> snd ` set (visible cls_dct)" "p = h' a"
      unfolding vw(3) by auto
    with scan_items_frame[OF s'] h' have "name p \<in> fst ` set (visible cls_dct)" by blast
    then obtain b where "(name p, b) \<in> set (visible cls_dct)" by auto
    then show "\<not> startswith (name p) ''_'' \<and> name p \<noteq> ''Attributes''"
      by (rule visible_names)
  qed
  from dense names scan_cls_idem[OF assms] show ?thesis by blast
qed

theorem scan_cls_port_indices_witness:
  "distinct (map snd (visible example_dct)) \<and>
   map_option (\<lambda>b. (map idx (inputs b), map idx (outputs b), map name (ports b)))
     (scan_view (Inr :: nat \<Rightarrow> error + nat) (new_builder ''M'') example_dct example_heap)
   = Some ([0, 1, 2], [0], [''clk'', ''a'', ''x'', ''b''])"
proof -
  let ?E = "Inr :: nat \<Rightarrow> error + nat"
  let ?B = "new_builder ''M'' :: (addr, unit, unit, nat) ModuleLikeBuilderBase"
  have d: "distinct (map snd (visible example_dct))"
    by (simp add: example_dct_def startswith_def)
  have ok: "\<exists>r. scan_cls ?E ?B example_dct example_heap = Inr r"
    by (simp add: scan_eval example_dct_def example_heap_def)
  then obtain self' h' where r: "scan_cls ?E ?B example_dct example_heap = Inr (self', h')"
    by auto
  from scan_cls_port_indices[OF r] d have
    i: "map idx (inputs (snapshot h' self')) = [0 ..< length (inputs (snapshot h' self'))]"
    and o: "map idx (outputs (snapshot h' self')) = [0 ..< length (outputs (snapshot h' self'))]"
    and n: "map name (ports (snapshot h' self')) = map fst (visible example_dct)"
    by blast+
  have v: "scan_view ?E ?B example_dct example_heap = Some (snapshot h' self')"
    using r by (simp add: scan_view_def)
  have l: "map_option (\<lambda>b. (length (inputs b), length (outputs b)))
             (scan_view ?E ?B example_dct example_heap) = Some (3, 1)"
    by (simp add: scan_eval example_dct_def example_heap_def)
  from l v have "length (inputs (snapshot h' self')) = 3" "length (outputs (snapshot h' self')) = 1"
    by simp_all
  with i o n have "map idx (inputs (snapshot h' self')) = [0, 1, 2]"
    "map idx (outputs (snapshot h' self')) = [0]"
    "map name (ports (snapshot h' self')) = [''clk'', ''a'', ''x'', ''b'']"
    by (simp_all add: example_dct_def startswith_def upt_rec)
  with v d show ?thesis by simp
qed

section \<open>Generator execution engine\<close>

text \<open>
  \<open>PortProxyBase\<close>, \<open>ModuleLikeBuilderBase.GeneratorCtxt\<close> and
  \<open>ModuleBuilder.generate\<close>. The world a generation runs in has the context variable
  \<open>_current_block_context\<close> (it holds the identity of a block context object, or
  nothing), a counter giving each new \<open>_BlockContext\<close> its identity, the body of the IR
  module node being generated, and the sequence of calls made so far on scopes and on the
  generation routine. The backedge builder, the insertion point, the location and the
  clock signal are context managers of the IR bindings: entering and exiting them is
  recorded as a call, \<open>Exit s exc\<close> telling whether the exit was passed an exception.
  Exiting one of them when no exception is passed may itself raise (the backedge builder
  does when a backedge was left uninitialized): \<open>scope_exit\<close> gives that exception, if
  any. \<open>GeneratorCtxt.__exit__\<close> calls the exits one after the other with no handler
  around them, so an exit that raises cuts the sequence short: the exits after it and
  \<open>ports._clear()\<close> are skipped, and that exception reaches the caller of \<open>generate\<close>.
  An exit that is passed an exception releases its scope and returns; entering a scope
  does not raise.
  \<open>_BlockContext\<close> is part of this module, so its \<open>__enter__\<close> and \<open>__exit__\<close> also
  act on the context variable as the source does.

  What a generation routine does to its proxy goes through the port properties, that is
  through \<open>_set_output\<close>: a routine is the sequence of output assignments it performs,
  followed by how it ends (it returns nothing, returns a value, or raises). \<open>gen_func\<close>
  gives that program for a generator and the block arguments it reads. The entry
  block's arguments (\<open>block_arguments\<close>) and the emission of the output operation
  (\<open>output_op\<close>, which may raise) come from the IR bindings.
\<close>


datatype 'v block_state = NoBody | Unterminated | Terminated "'v list"

datatype 'v scope =
    BlockContextScope nat
  | BackedgeBuilderScope string
  | InsertionPointScope
  | LocationScope
  | ClockScope 'v

datatype 'v event = Enter "'v scope" | Exit "'v scope" bool | CallGenerator

record 'v world =
  current_block_context :: "nat option"
  block_contexts_created :: nat
  calls :: "'v event list"
  mod_body :: "'v block_state"

datatype ('v, 't, 'c) gen_action = SetOutput nat "('v, 't, 'c) supplied"

datatype gen_finish = ReturnsNone | ReturnsValue | GenRaises error

record ('v, 't, 'c) gen_program =
  actions :: "('v, 't, 'c) gen_action list"
  finish :: gen_finish

record ('v, 't, 'c, 'g, 'a) gen_env =
  hw :: "('v, 't, 'c) hw_env"
  gen_func :: "'g \<Rightarrow> 'v list \<Rightarrow> ('v, 't, 'c) gen_program"
  block_arguments :: "'v list"
  output_op :: "'v list \<Rightarrow> error option"
  scope_exit :: "'v scope \<Rightarrow> error option"
  attr_str :: "'a \<Rightarrow> string"

record ('v, 't, 'g, 'k, 'a) PortProxyBase =
  block_args :: "'v list option"
  output_values :: "('v, 't) Signal option list option"
  proxy_builder :: "('t ModuleDecl, 'g, 'k, 'a) ModuleLikeBuilderBase option"
  proxy_name :: string

definition new_port_proxy ::
  "'v list \<Rightarrow> ('t ModuleDecl, 'g, 'k, 'a) ModuleLikeBuilderBase \<Rightarrow> ('v, 't, 'g, 'k, 'a) PortProxyBase" where
  "new_port_proxy args builder =
     \<lparr>block_args = Some args,
      output_values = Some (replicate (length (outputs builder)) None),
      proxy_builder = Some builder,
      proxy_name = modcls_name builder\<rparr>"

definition set_output ::
  "('v, 't, 'c) hw_env \<Rightarrow> nat \<Rightarrow> ('v, 't, 'c) supplied \<Rightarrow> ('v, 't, 'g, 'k, 'a) PortProxyBase
     \<Rightarrow> error + ('v, 't, 'g, 'k, 'a) PortProxyBase" where
  "set_output E i signal self =
     (case signal of
        IsNone \<Rightarrow> Inl AssertionError
      | _ \<Rightarrow>
        (case proxy_builder self of
           None \<Rightarrow> Inl (Raised ''AttributeError'')
         | Some builder \<Rightarrow>
             if i \<ge> length (outputs builder) then Inl (IndexError ''list index out of range'')
             else
               (let port = outputs builder ! i;
                    converted =
                      (case signal of
                         IsSignal sg \<Rightarrow>
                           if decl_type port \<noteq> sig_type sg
                           then Inl (PortError (''Input port '' @ name port @ '' expected type ''
                                      @ type_str E (decl_type port) @ '', not ''
                                      @ type_str E (sig_type sg)))
                           else Inr sg
                       | Literal c \<Rightarrow> type_call E (decl_type port) c
                       | IsNone \<Rightarrow> Inl AssertionError)
                in case converted of
                     Inl e \<Rightarrow> Inl e
                   | Inr sg \<Rightarrow>
                       (case output_values self of
                          None \<Rightarrow> Inl (TypeError ''object does not support item assignment'')
                        | Some vals \<Rightarrow>
                            if i < length vals
                            then Inr (self\<lparr>output_values := Some (vals[i := Some sg])\<rparr>)
                            else Inl (IndexError ''list assignment index out of range'')))))"

fun run_actions ::
  "('v, 't, 'c) hw_env \<Rightarrow> ('v, 't, 'c) gen_action list \<Rightarrow> ('v, 't, 'g, 'k, 'a) PortProxyBase
     \<Rightarrow> error + ('v, 't, 'g, 'k, 'a) PortProxyBase" where
  "run_actions E [] proxy = Inr proxy"
| "run_actions E (SetOutput i signal # rest) proxy =
     (case set_output E i signal proxy of
        Inl e \<Rightarrow> Inl e
      | Inr proxy' \<Rightarrow> run_actions E rest proxy')"

fun unconnected_from :: "'t ModuleDecl list \<Rightarrow> nat \<Rightarrow> 's option list \<Rightarrow> error + string list" where
  "unconnected_from outs i [] = Inr []"
| "unconnected_from outs i (v # vs) =
     (case v of
        Some s \<Rightarrow> unconnected_from outs (i + 1) vs
      | None \<Rightarrow>
          if i < length outs
          then (case unconnected_from outs (i + 1) vs of
                  Inl e \<Rightarrow> Inl e
                | Inr names \<Rightarrow> Inr (name (outs ! i) # names))
          else Inl (IndexError ''list index out of range''))"

definition check_unconnected_outputs :: "('v, 't, 'g, 'k, 'a) PortProxyBase \<Rightarrow> error option" where
  "check_unconnected_outputs self =
     (case proxy_builder self of
        None \<Rightarrow> Some AssertionError
      | Some builder \<Rightarrow>
          (case output_values self of
             None \<Rightarrow> Some (TypeError ''object is not iterable'')
           | Some vals \<Rightarrow>
               (case unconnected_from (outputs builder) 0 vals of
                  Inl e \<Rightarrow> Some e
                | Inr unconnected_port_names \<Rightarrow>
                    if length unconnected_port_names > 0
                    then Some (UnconnectedSignalError (proxy_name self) unconnected_port_names)
                    else None)))"

definition clear :: "('v, 't, 'g, 'k, 'a) PortProxyBase \<Rightarrow> ('v, 't, 'g, 'k, 'a) PortProxyBase" where
  "clear self = self\<lparr>block_args := None, output_values := None, proxy_builder := None\<rparr>"

record 'v GeneratorCtxt =
  bc :: nat
  bc_old_token :: "nat option"
  bb :: string
  clk :: "'v option"

definition GeneratorCtxt_init ::
  "('a \<Rightarrow> string) \<Rightarrow> ('t ModuleDecl, 'g, 'k, 'a) ModuleLikeBuilderBase
     \<Rightarrow> ('v, 't, 'g, 'k, 'a) PortProxyBase \<Rightarrow> 'v world \<Rightarrow> error + 'v GeneratorCtxt \<times> 'v world" where
  "GeneratorCtxt_init val_str builder proxy w =
     (let w' = w\<lparr>block_contexts_created := block_contexts_created w + 1\<rparr>;
          self = \<lparr>bc = block_contexts_created w, bc_old_token = None,
                  bb = builder_name val_str builder, clk = None\<rparr>
      in if card (clocks builder) = 1
         then (let clk_port = the_elem (clocks builder)
               in case block_args proxy of
                    None \<Rightarrow> Inl (TypeError ''object is not subscriptable'')
                  | Some args \<Rightarrow>
                      if clk_port < length args
                      then Inr (self\<lparr>clk := Some (args ! clk_port)\<rparr>, w')
                      else Inl (IndexError ''list index out of range''))
         else Inr (self, w'))"

definition record_call :: "'v event \<Rightarrow> 'v world \<Rightarrow> 'v world" where
  "record_call e w = w\<lparr>calls := calls w @ [e]\<rparr>"

definition BlockContext_enter :: "'v GeneratorCtxt \<Rightarrow> 'v world \<Rightarrow> 'v GeneratorCtxt \<times> 'v world" where
  "BlockContext_enter self w =
     (self\<lparr>bc_old_token := current_block_context w\<rparr>,
      record_call (Enter (BlockContextScope (bc self))) (w\<lparr>current_block_context := Some (bc self)\<rparr>))"

definition BlockContext_exit :: "'v GeneratorCtxt \<Rightarrow> bool \<Rightarrow> 'v world \<Rightarrow> 'v world" where
  "BlockContext_exit self exc w =
     (let w' = record_call (Exit (BlockContextScope (bc self)) exc) w
      in if exc then w' else w'\<lparr>current_block_context := bc_old_token self\<rparr>)"

definition GeneratorCtxt_enter :: "'v GeneratorCtxt \<Rightarrow> 'v world \<Rightarrow> 'v GeneratorCtxt \<times> 'v world" where
  "GeneratorCtxt_enter self w =
     (let (self', w1) = BlockContext_enter self w;
          w2 = record_call (Enter (BackedgeBuilderScope (bb self))) w1;
          w3 = record_call (Enter InsertionPointScope) w2;
          w4 = record_call (Enter LocationScope) w3
      in case clk self of
           Some c \<Rightarrow> (self', record_call (Enter (ClockScope c)) w4)
         | None \<Rightarrow> (self', w4))"

definition external_exit ::
  "('v, 't, 'c, 'g, 'a) gen_env \<Rightarrow> 'v scope \<Rightarrow> bool \<Rightarrow> 'v world \<Rightarrow> error option \<times> 'v world" where
  "external_exit E s exc w =
     ((if exc then None else scope_exit E s), record_call (Exit s exc) w)"

definition GeneratorCtxt_exit ::
  "('v, 't, 'c, 'g, 'a) gen_env \<Rightarrow> 'v GeneratorCtxt \<Rightarrow> bool
     \<Rightarrow> ('v, 't, 'g, 'k, 'a) PortProxyBase \<Rightarrow> 'v world
     \<Rightarrow> error option \<times> ('v, 't, 'g, 'k, 'a) PortProxyBase \<times> 'v world" where
  "GeneratorCtxt_exit E self exc proxy w =
     (let (e1, w1) = (case clk self of
                        Some c \<Rightarrow> external_exit E (ClockScope c) exc w
                      | None \<Rightarrow> (None, w))
      in case e1 of
           Some e \<Rightarrow> (Some e, proxy, w1)
         | None \<Rightarrow>
             (let (e2, w2) = external_exit E LocationScope exc w1
              in case e2 of
                   Some e \<Rightarrow> (Some e, proxy, w2)
                 | None \<Rightarrow>
                     (let (e3, w3) = external_exit E InsertionPointScope exc w2
                      in case e3 of
                           Some e \<Rightarrow> (Some e, proxy, w3)
                         | None \<Rightarrow>
                             (let (e4, w4) = external_exit E (BackedgeBuilderScope (bb self)) exc w3
                              in case e4 of
                                   Some e \<Rightarrow> (Some e, proxy, w4)
                                 | None \<Rightarrow>
                                     (None, clear proxy, BlockContext_exit self exc w4)))))"

fun output_operands :: "('v, 't) Signal option list \<Rightarrow> error + 'v list" where
  "output_operands [] = Inr []"
| "output_operands (None # rest) = Inl (Raised ''AttributeError'')"
| "output_operands (Some o' # rest) =
     (case output_operands rest of
        Inl e \<Rightarrow> Inl e
      | Inr vs \<Rightarrow> Inr (sig_value o' # vs))"

definition generate_body ::
  "('v, 't, 'c, 'g, 'a) gen_env \<Rightarrow> 'g \<Rightarrow> ('v, 't, 'g, 'k, 'a) PortProxyBase \<Rightarrow> 'v world
     \<Rightarrow> error option \<times> ('v, 't, 'g, 'k, 'a) PortProxyBase \<times> 'v world" where
  "generate_body E g proxy w =
     (let w1 = record_call CallGenerator w;
          prog = gen_func E g (block_arguments E)
      in case run_actions (hw E) (actions prog) proxy of
           Inl e \<Rightarrow> (Some e, proxy, w1)
         | Inr proxy' \<Rightarrow>
             (case finish prog of
                GenRaises e \<Rightarrow> (Some e, proxy', w1)
              | ReturnsValue \<Rightarrow>
                  (Some (ValueError ''Generators must not return a value''), proxy', w1)
              | ReturnsNone \<Rightarrow>
                  (case check_unconnected_outputs proxy' of
                     Some e \<Rightarrow> (Some e, proxy', w1)
                   | None \<Rightarrow>
                       (case output_values proxy' of
                          None \<Rightarrow> (Some (TypeError ''object is not iterable''), proxy', w1)
                        | Some vals \<Rightarrow>
                            (case output_operands vals of
                               Inl e \<Rightarrow> (Some e, proxy', w1)
                             | Inr operands \<Rightarrow>
                                 (case output_op E operands of
                                    Some e \<Rightarrow> (Some e, proxy', w1)
                                  | None \<Rightarrow>
                                      (None, proxy', w1\<lparr>mod_body := Terminated operands\<rparr>)))))))"

record ('v, 't, 'g, 'k, 'a) generation =
  gen_error :: "error option"
  gen_ports :: "('v, 't, 'g, 'k, 'a) PortProxyBase option"
  gen_world :: "'v world"

definition generate ::
  "('v, 't, 'c, 'g, 'a) gen_env \<Rightarrow> ('t ModuleDecl, 'g, 'k, 'a) ModuleLikeBuilderBase \<Rightarrow> 'v world
     \<Rightarrow> ('v, 't, 'g, 'k, 'a) generation" where
  "generate E self w =
     (case generators self of
        [(gname, g)] \<Rightarrow>
          (let w0 = w\<lparr>mod_body := Unterminated\<rparr>;
               proxy = new_port_proxy (block_arguments E) self
           in case GeneratorCtxt_init (attr_str E) self proxy w0 of
                Inl e \<Rightarrow> \<lparr>gen_error = Some e, gen_ports = Some proxy, gen_world = w0\<rparr>
              | Inr (ctx, w1) \<Rightarrow>
                  (let (ctx', w2) = GeneratorCtxt_enter ctx w1;
                       (err, proxy', w3) = generate_body E g proxy w2;
                       (exit_err, proxy'', w4) = GeneratorCtxt_exit E ctx' (err \<noteq> None) proxy' w3
                   in \<lparr>gen_error = (case exit_err of Some e \<Rightarrow> Some e | None \<Rightarrow> err),
                       gen_ports = Some proxy'', gen_world = w4\<rparr>))
      | _ \<Rightarrow> \<lparr>gen_error = Some AssertionError, gen_ports = None, gen_world = w\<rparr>)"

definition init_world :: "'v world" where
  "init_world = \<lparr>current_block_context = None, block_contexts_created = 0, calls = [],
                 mod_body = NoBody\<rparr>"

definition adder_env :: "(nat, string, nat) gen_program \<Rightarrow> (nat, string, nat, unit, 'a) gen_env" where
  "adder_env prog =
     \<lparr>hw = bits_env, gen_func = (\<lambda>g args. prog), block_arguments = [10, 11],
      output_op = (\<lambda>vs. None), scope_exit = (\<lambda>s. None), attr_str = (\<lambda>a. '''')\<rparr>"

definition backedge_env :: "(nat, string, nat) gen_program \<Rightarrow> (nat, string, nat, unit, 'a) gen_env" where
  "backedge_env prog =
     (adder_env prog)\<lparr>scope_exit := (\<lambda>s. case s of
                                           BackedgeBuilderScope n \<Rightarrow> Some (Raised ''RuntimeError'')
                                         | _ \<Rightarrow> None)\<rparr>"

definition ctx_scopes :: "'v GeneratorCtxt \<Rightarrow> 'v scope list" where
  "ctx_scopes self =
     [BlockContextScope (bc self), BackedgeBuilderScope (bb self), InsertionPointScope,
      LocationScope] @ (case clk self of Some c \<Rightarrow> [ClockScope c] | None \<Rightarrow> [])"

definition clock_call :: "'v event \<Rightarrow> bool" where
  "clock_call ev = (case ev of
                      Enter (ClockScope c) \<Rightarrow> True
                    | Exit (ClockScope c) exc \<Rightarrow> True
                    | _ \<Rightarrow> False)"

lemma GeneratorCtxt_enter_effect:
  assumes "GeneratorCtxt_enter self w = (self', w')"
  shows "calls w' = calls w @ map Enter (ctx_scopes self)"
    and "current_block_context w' = Some (bc self)"
    and "self' = self\<lparr>bc_old_token := current_block_context w\<rparr>"
    and "mod_body w' = mod_body w"
    and "block_contexts_created w' = block_contexts_created w"
  using assms
  by (auto simp: GeneratorCtxt_enter_def BlockContext_enter_def record_call_def ctx_scopes_def
      Let_def split: option.splits)


lemma GeneratorCtxt_exit_passed_exception:
  assumes "GeneratorCtxt_exit E self True proxy w = (exit_err, proxy', w')"
  shows "exit_err = None"
    and "calls w' = calls w @ map (\<lambda>s. Exit s True) (rev (ctx_scopes self))"
    and "current_block_context w' = current_block_context w"
    and "proxy' = clear proxy"
    and "mod_body w' = mod_body w"
  using assms
  by (auto simp: GeneratorCtxt_exit_def external_exit_def BlockContext_exit_def record_call_def
      ctx_scopes_def Let_def split: option.splits)

lemma GeneratorCtxt_exit_raises:
  assumes "butlast (rev (ctx_scopes self)) = pre @ s # post"
    and "\<forall>s' \<in> set pre. scope_exit E s' = None"
    and "scope_exit E s = Some e"
  shows "GeneratorCtxt_exit E self False proxy w =
           (Some e, proxy, w\<lparr>calls := calls w @ map (\<lambda>s. Exit s False) (pre @ [s])\<rparr>)"
proof (cases "clk self")
  case None
  with assms(1) have "[LocationScope, InsertionPointScope, BackedgeBuilderScope (bb self)]
                        = pre @ s # post"
    by (simp add: ctx_scopes_def)
  then consider
      "pre = []" "s = LocationScope"
    | "pre = [LocationScope]" "s = InsertionPointScope"
    | "pre = [LocationScope, InsertionPointScope]" "s = BackedgeBuilderScope (bb self)"
    by (auto simp: Cons_eq_append_conv)
  then show ?thesis
    using assms(2,3) None
    by cases (simp_all add: GeneratorCtxt_exit_def external_exit_def record_call_def)
next
  case (Some c)
  with assms(1) have "[ClockScope c, LocationScope, InsertionPointScope,
                        BackedgeBuilderScope (bb self)] = pre @ s # post"
    by (simp add: ctx_scopes_def)
  then consider
      "pre = []" "s = ClockScope c"
    | "pre = [ClockScope c]" "s = LocationScope"
    | "pre = [ClockScope c, LocationScope]" "s = InsertionPointScope"
    | "pre = [ClockScope c, LocationScope, InsertionPointScope]"
      "s = BackedgeBuilderScope (bb self)"
    by (auto simp: Cons_eq_append_conv)
  then show ?thesis
    using assms(2,3) Some
    by cases (simp_all add: GeneratorCtxt_exit_def external_exit_def record_call_def)
qed

lemma GeneratorCtxt_exit_first:
  assumes "GeneratorCtxt_exit E self exc proxy w = (exit_err, proxy', w')"
  shows "\<exists>rest. calls w' = calls w @ Exit (last (ctx_scopes self)) exc # rest \<and>
           (\<forall>ev \<in> set rest. \<not> clock_call ev)"
  using assms
  by (auto simp: GeneratorCtxt_exit_def external_exit_def BlockContext_exit_def record_call_def
      ctx_scopes_def clock_call_def Let_def split: option.splits if_splits)

lemma generate_body_effect:
  assumes "generate_body E g proxy w = (err, proxy', w')"
  shows "calls w' = calls w @ [CallGenerator]"
    and "current_block_context w' = current_block_context w"
    and "err \<noteq> None \<Longrightarrow> mod_body w' = mod_body w"
    and "err = None \<Longrightarrow> \<exists>operands. mod_body w' = Terminated operands"
  using assms
  by (auto simp: generate_body_def record_call_def Let_def
      split: sum.splits gen_finish.splits option.splits)

lemma GeneratorCtxt_init_effect:
  assumes "GeneratorCtxt_init val_str builder proxy w = Inr (self, w')"
  shows "bc self = block_contexts_created w"
    and "bb self = builder_name val_str builder"
    and "clk self \<noteq> None \<longleftrightarrow> card (clocks builder) = 1"
    and "calls w' = calls w"
    and "current_block_context w' = current_block_context w"
    and "mod_body w' = mod_body w"
  using assms
  by (auto simp: GeneratorCtxt_init_def Let_def split: if_splits option.splits)


lemma GeneratorCtxt_init_clk:
  assumes "GeneratorCtxt_init val_str builder proxy w = Inr (self, w')"
    and "block_args proxy = Some args"
  shows "clk self = (if card (clocks builder) = 1
                     then Some (args ! the_elem (clocks builder)) else None)"
  using assms
  by (auto simp: GeneratorCtxt_init_def Let_def split: if_splits)

lemma generate_unfold:
  assumes "generators self = [(gname, g)]"
    and "GeneratorCtxt_init (attr_str E) self (new_port_proxy (block_arguments E) self)
           (w\<lparr>mod_body := Unterminated\<rparr>) = Inr (ctx, w1)"
    and "GeneratorCtxt_enter ctx w1 = (ctx', w2)"
    and "generate_body E g (new_port_proxy (block_arguments E) self) w2 = (err, proxy', w3)"
    and "GeneratorCtxt_exit E ctx' (err \<noteq> None) proxy' w3 = (exit_err, proxy'', w4)"
  shows "generate E self w =
           \<lparr>gen_error = (case exit_err of Some e \<Rightarrow> Some e | None \<Rightarrow> err),
            gen_ports = Some proxy'', gen_world = w4\<rparr>"
  using assms by (simp add: generate_def)

lemma generate_body_failed:
  assumes gens: "generators self = [(gname, g)]"
    and init: "GeneratorCtxt_init (attr_str E) self (new_port_proxy (block_arguments E) self)
                 (w\<lparr>mod_body := Unterminated\<rparr>) = Inr (ctx, w1)"
    and en: "GeneratorCtxt_enter ctx w1 = (ctx', w2)"
    and bd: "generate_body E g (new_port_proxy (block_arguments E) self) w2 = (Some e, proxy', w3)"
  shows "gen_error (generate E self w) = Some e"
    and "gen_ports (generate E self w) = Some (clear proxy')"
    and "calls (gen_world (generate E self w)) =
           calls w @ map Enter (ctx_scopes ctx) @ [CallGenerator]
             @ map (\<lambda>s. Exit s True) (rev (ctx_scopes ctx))"
    and "current_block_context (gen_world (generate E self w)) = Some (bc ctx)"
    and "mod_body (gen_world (generate E self w)) = Unterminated"
proof -
  obtain exit_err proxy'' w4 where
    ex: "GeneratorCtxt_exit E ctx' True proxy' w3 = (exit_err, proxy'', w4)"
    by (cases "GeneratorCtxt_exit E ctx' True proxy' w3") auto
  note x = GeneratorCtxt_exit_passed_exception[OF ex]
  have g: "generate E self w = \<lparr>gen_error = Some e, gen_ports = Some proxy'', gen_world = w4\<rparr>"
    using generate_unfold[OF gens init en bd, of exit_err proxy'' w4] ex x(1) by simp
  note i = GeneratorCtxt_init_effect[OF init]
  note n = GeneratorCtxt_enter_effect[OF en]
  note b = generate_body_effect[OF bd]
  have sc: "ctx_scopes ctx' = ctx_scopes ctx" using n(3) by (simp add: ctx_scopes_def)
  show "gen_error (generate E self w) = Some e" using g by simp
  show "gen_ports (generate E self w) = Some (clear proxy')" using g x(4) by simp
  show "calls (gen_world (generate E self w)) =
           calls w @ map Enter (ctx_scopes ctx) @ [CallGenerator]
             @ map (\<lambda>s. Exit s True) (rev (ctx_scopes ctx))"
    using g i(4) n(1) b(1) x(2) sc by simp
  show "current_block_context (gen_world (generate E self w)) = Some (bc ctx)"
    using g x(3) b(2) n(2) by simp
  show "mod_body (gen_world (generate E self w)) = Unterminated"
    using g x(5) b(3) n(4) i(6) by simp
qed

lemma generate_exit_raised:
  assumes gens: "generators self = [(gname, g)]"
    and init: "GeneratorCtxt_init (attr_str E) self (new_port_proxy (block_arguments E) self)
                 (w\<lparr>mod_body := Unterminated\<rparr>) = Inr (ctx, w1)"
    and en: "GeneratorCtxt_enter ctx w1 = (ctx', w2)"
    and bd: "generate_body E g (new_port_proxy (block_arguments E) self) w2 = (None, proxy', w3)"
    and sp: "butlast (rev (ctx_scopes ctx)) = pre @ s # post"
    and ok: "\<forall>s' \<in> set pre. scope_exit E s' = None"
    and bad: "scope_exit E s = Some e"
  shows "gen_error (generate E self w) = Some e"
    and "gen_ports (generate E self w) = Some proxy'"
    and "calls (gen_world (generate E self w)) =
           calls w @ map Enter (ctx_scopes ctx) @ [CallGenerator]
             @ map (\<lambda>s. Exit s False) (pre @ [s])"
    and "current_block_context (gen_world (generate E self w)) = Some (bc ctx)"
proof -
  note i = GeneratorCtxt_init_effect[OF init]
  note n = GeneratorCtxt_enter_effect[OF en]
  note b = generate_body_effect[OF bd]
  have sc: "ctx_scopes ctx' = ctx_scopes ctx" using n(3) by (simp add: ctx_scopes_def)
  let ?w4 = "w3\<lparr>calls := calls w3 @ map (\<lambda>s. Exit s False) (pre @ [s])\<rparr>"
  have ex: "GeneratorCtxt_exit E ctx' (None \<noteq> (None :: error option)) proxy' w3
              = (Some e, proxy', ?w4)"
    using GeneratorCtxt_exit_raises[of ctx' pre s post E e proxy' w3] sp ok bad sc by simp
  have g: "generate E self w = \<lparr>gen_error = Some e, gen_ports = Some proxy', gen_world = ?w4\<rparr>"
    using generate_unfold[OF gens init en bd ex] by simp
  show "gen_error (generate E self w) = Some e" using g by simp
  show "gen_ports (generate E self w) = Some proxy'" using g by simp
  show "calls (gen_world (generate E self w)) =
           calls w @ map Enter (ctx_scopes ctx) @ [CallGenerator]
             @ map (\<lambda>s. Exit s False) (pre @ [s])"
    using g i(4) n(1) b(1) by simp
  show "current_block_context (gen_world (generate E self w)) = Some (bc ctx)"
    using g b(2) n(2) by simp
qed

lemma generate_calls:
  assumes gens: "generators self = [(gname, g)]"
    and init: "GeneratorCtxt_init (attr_str E) self (new_port_proxy (block_arguments E) self)
                 (w\<lparr>mod_body := Unterminated\<rparr>) = Inr (ctx, w1)"
  shows "\<exists>exc rest.
           calls (gen_world (generate E self w)) =
             calls w @ map Enter (ctx_scopes ctx) @ [CallGenerator]
               @ Exit (last (ctx_scopes ctx)) exc # rest \<and>
           (\<forall>ev \<in> set rest. \<not> clock_call ev)"
proof -
  let ?proxy = "new_port_proxy (block_arguments E) self"
  obtain ctx' w2 where en: "GeneratorCtxt_enter ctx w1 = (ctx', w2)"
    by (cases "GeneratorCtxt_enter ctx w1")
  obtain err proxy' w3 where bd: "generate_body E g ?proxy w2 = (err, proxy', w3)"
    by (cases "generate_body E g ?proxy w2") auto
  obtain exit_err proxy'' w4 where
    ex: "GeneratorCtxt_exit E ctx' (err \<noteq> None) proxy' w3 = (exit_err, proxy'', w4)"
    by (cases "GeneratorCtxt_exit E ctx' (err \<noteq> None) proxy' w3") auto
  note g = generate_unfold[OF gens init en bd ex]
  note i = GeneratorCtxt_init_effect[OF init]
  note n = GeneratorCtxt_enter_effect[OF en]
  note b = generate_body_effect[OF bd]
  have sc: "ctx_scopes ctx' = ctx_scopes ctx"
    using n(3) by (simp add: ctx_scopes_def)
  from GeneratorCtxt_exit_first[OF ex] obtain rest where
    r: "calls w4 = calls w3 @ Exit (last (ctx_scopes ctx')) (err \<noteq> None) # rest"
      "\<forall>ev \<in> set rest. \<not> clock_call ev" by blast
  have "calls (gen_world (generate E self w)) =
             calls w @ map Enter (ctx_scopes ctx) @ [CallGenerator]
               @ Exit (last (ctx_scopes ctx)) (err \<noteq> None) # rest"
    using g i(4) n(1) b(1) r(1) sc by simp
  with r(2) show ?thesis by blast
qed

lemma set_output_inv:
  assumes "set_output E i signal proxy = Inr proxy'"
    and "proxy_builder proxy = Some b" and "output_values proxy = Some vals"
  shows "\<exists>vals'. output_values proxy' = Some vals' \<and> length vals' = length vals \<and>
           proxy_builder proxy' = Some b \<and> proxy_name proxy' = proxy_name proxy"
  using assms
  by (cases signal)
     (auto simp: set_output_def Let_def split: if_splits sum.splits)

lemma run_actions_inv:
  "run_actions E acts proxy = Inr proxy' \<Longrightarrow>
   proxy_builder proxy = Some b \<Longrightarrow> output_values proxy = Some vals \<Longrightarrow>
     \<exists>vals'. output_values proxy' = Some vals' \<and> length vals' = length vals \<and>
       proxy_builder proxy' = Some b \<and> proxy_name proxy' = proxy_name proxy"
proof (induction acts arbitrary: proxy vals)
  case Nil
  then show ?case by simp
next
  case (Cons act acts)
  obtain i signal where act: "act = SetOutput i signal" by (cases act)
  from Cons.prems(1) act obtain p1 where
    p1: "set_output E i signal proxy = Inr p1" and r: "run_actions E acts p1 = Inr proxy'"
    by (auto split: sum.splits)
  from set_output_inv[OF p1 Cons.prems(2,3)] obtain v1 where
    v1: "output_values p1 = Some v1" "length v1 = length vals" "proxy_builder p1 = Some b"
      "proxy_name p1 = proxy_name proxy" by blast
  from Cons.IH[OF r v1(3) v1(1)] v1(2,4) show ?case by auto
qed

lemma unconnected_from_zip:
  "i + length vs \<le> length outs \<Longrightarrow>
     unconnected_from outs i vs =
       Inr (map (\<lambda>(p, v). name p) (filter (\<lambda>(p, v). v = None) (zip (drop i outs) vs)))"
proof (induction vs arbitrary: i)
  case Nil
  then show ?case by simp
next
  case (Cons v vs)
  then have lt: "i < length outs" and le: "(i + 1) + length vs \<le> length outs" by simp_all
  have d: "drop i outs = outs ! i # drop (i + 1) outs"
    using lt by (simp add: Cons_nth_drop_Suc)
  from Cons.IH[OF le] d lt show ?case by (cases v) simp_all
qed


lemma generate_body_success:
  assumes "generate_body E g proxy w = (None, proxy', w')"
    and "proxy_builder proxy = Some b" and "output_values proxy = Some vals"
  shows "proxy_builder proxy' = Some b"
proof -
  from assms(1) have
    "run_actions (hw E) (actions (gen_func E g (block_arguments E))) proxy = Inr proxy'"
    by (auto simp: generate_body_def Let_def split: sum.splits gen_finish.splits option.splits)
  from run_actions_inv[OF this assms(2,3)] show ?thesis by blast
qed

definition clocked :: "(string ModuleDecl, unit, unit, unit) ModuleLikeBuilderBase" where
  "clocked =
     \<lparr>modcls_name = ''Reg'', modcls_module_name = None,
      ports = [\<lparr>decl_cls = ClockCls, decl_type = ''clk'', idx = 0, name = ''clk''\<rparr>,
               \<lparr>decl_cls = InputCls, decl_type = ''i8'', idx = 1, name = ''d''\<rparr>,
               \<lparr>decl_cls = OutputCls, decl_type = ''i8'', idx = 0, name = ''q''\<rparr>],
      clocks = {0}, resets = {},
      generators = [(''build'', ())], constants = [],
      parameters = None, attributes = []\<rparr>"

lemmas generate_eval =
  generate_def GeneratorCtxt_init_def GeneratorCtxt_enter_def GeneratorCtxt_exit_def
  external_exit_def BlockContext_enter_def BlockContext_exit_def generate_body_def
  record_call_def new_port_proxy_def check_unconnected_outputs_def set_output_def clear_def
  outputs_def isinstance_Output_def builder_name_def
  adder_env_def backedge_env_def adder_def clocked_def bits_env_def init_world_def Let_def

text \<open>
  C3 (as stated). The generation routine of \<open>Adder\<close> raises. Before the generation the
  context variable held no block context; after the error has reached the caller it still
  holds the block context of the failed invocation: that scope was not closed.
\<close>

theorem generate_failure_counterexample:
  "gen_error (generate (adder_env \<lparr>actions = [], finish = GenRaises (Raised ''boom'')\<rparr>)
                (adder True) init_world) = Some (Raised ''boom'') \<and>
   current_block_context (init_world :: nat world) = None \<and>
   current_block_context
     (gen_world (generate (adder_env \<lparr>actions = [], finish = GenRaises (Raised ''boom'')\<rparr>)
                   (adder True) init_world)) = Some 0"
  by (simp add: generate_def GeneratorCtxt_init_def GeneratorCtxt_enter_def GeneratorCtxt_exit_def
      external_exit_def BlockContext_enter_def BlockContext_exit_def generate_body_def
      record_call_def new_port_proxy_def adder_env_def adder_def init_world_def Let_def)

text \<open>
  C3 (amended). A generation invocation has created its scopes and entered them, and the
  body of the \<open>with\<close> statement (the generation routine, the check on its return, the
  output check, terminator emission) has run with result \<open>err\<close>.

  When the body raised an exception: that exception is the error of the generation; the
  exit handler of every scope opened for the invocation is called with the exception, in
  reverse order of opening (implicit clock scope if any, location scope, insertion point,
  backedge builder, block context), and nothing else is called; the PortProxy is
  invalidated. The block context's exit handler restores nothing when it is passed an
  exception: the context variable keeps pointing at the block context of the failed
  invocation.

  When the body completed and the exit handler of one of the scopes raises (those before
  it in the exit order having returned): that exception is the error of the generation;
  the exit handlers up to and including that one have been called, without an exception;
  the exit handlers of the scopes opened earlier, the block context's among them, are not
  called; the PortProxy is not invalidated, it is the one the body left, still attached
  to its builder; and the context variable keeps pointing at the block context of the
  failed invocation.
\<close>

theorem generate_failure_unwinds:
  assumes "generators self = [(gname, g)]"
    and "GeneratorCtxt_init (attr_str E) self (new_port_proxy (block_arguments E) self)
           (w\<lparr>mod_body := Unterminated\<rparr>) = Inr (ctx, w1)"
    and "GeneratorCtxt_enter ctx w1 = (ctx', w2)"
    and "generate_body E g (new_port_proxy (block_arguments E) self) w2 = (err, proxy', w3)"
  shows "(\<forall>e. err = Some e \<longrightarrow>
            gen_error (generate E self w) = Some e \<and>
            calls (gen_world (generate E self w)) =
              calls w @ map Enter (ctx_scopes ctx) @ [CallGenerator]
                @ map (\<lambda>s. Exit s True) (rev (ctx_scopes ctx)) \<and>
            gen_ports (generate E self w) = Some (clear proxy') \<and>
            block_args (clear proxy') = None \<and> output_values (clear proxy') = None \<and>
            proxy_builder (clear proxy') = None \<and>
            current_block_context (gen_world (generate E self w)) = Some (bc ctx)) \<and>
         (\<forall>pre s post e.
            err = None \<and> butlast (rev (ctx_scopes ctx)) = pre @ s # post \<and>
            (\<forall>s' \<in> set pre. scope_exit E s' = None) \<and> scope_exit E s = Some e \<longrightarrow>
            gen_error (generate E self w) = Some e \<and>
            calls (gen_world (generate E self w)) =
              calls w @ map Enter (ctx_scopes ctx) @ [CallGenerator]
                @ map (\<lambda>s. Exit s False) (pre @ [s]) \<and>
            gen_ports (generate E self w) = Some proxy' \<and>
            proxy_builder proxy' = Some self \<and>
            current_block_context (gen_world (generate E self w)) = Some (bc ctx)) \<and>
         bc ctx = block_contexts_created w \<and>
         rev (ctx_scopes ctx) =
           (case clk ctx of Some c \<Rightarrow> [ClockScope c] | None \<Rightarrow> []) @
           [LocationScope, InsertionPointScope, BackedgeBuilderScope (bb ctx),
            BlockContextScope (bc ctx)]"
proof -
  have a: "gen_error (generate E self w) = Some e \<and>
            calls (gen_world (generate E self w)) =
              calls w @ map Enter (ctx_scopes ctx) @ [CallGenerator]
                @ map (\<lambda>s. Exit s True) (rev (ctx_scopes ctx)) \<and>
            gen_ports (generate E self w) = Some (clear proxy') \<and>
            block_args (clear proxy') = None \<and> output_values (clear proxy') = None \<and>
            proxy_builder (clear proxy') = None \<and>
            current_block_context (gen_world (generate E self w)) = Some (bc ctx)"
    if "err = Some e" for e
    using generate_body_failed[OF assms(1,2,3), of e proxy' w3] assms(4) that
    by (simp add: clear_def)
  have b: "gen_error (generate E self w) = Some e \<and>
            calls (gen_world (generate E self w)) =
              calls w @ map Enter (ctx_scopes ctx) @ [CallGenerator]
                @ map (\<lambda>s. Exit s False) (pre @ [s]) \<and>
            gen_ports (generate E self w) = Some proxy' \<and>
            proxy_builder proxy' = Some self \<and>
            current_block_context (gen_world (generate E self w)) = Some (bc ctx)"
    if h: "err = None" "butlast (rev (ctx_scopes ctx)) = pre @ s # post"
      "\<forall>s' \<in> set pre. scope_exit E s' = None" "scope_exit E s = Some e"
    for pre s post e
  proof -
    have bd: "generate_body E g (new_port_proxy (block_arguments E) self) w2 = (None, proxy', w3)"
      using assms(4) h(1) by simp
    have pb: "proxy_builder proxy' = Some self"
      using generate_body_success[OF bd, of self "replicate (length (outputs self)) None"]
      by (simp add: new_port_proxy_def)
    from generate_exit_raised[OF assms(1,2,3) bd h(2,3,4)] pb show ?thesis by simp
  qed
  have c: "bc ctx = block_contexts_created w"
    using GeneratorCtxt_init_effect(1)[OF assms(2)] by simp
  have d: "rev (ctx_scopes ctx) =
           (case clk ctx of Some c \<Rightarrow> [ClockScope c] | None \<Rightarrow> []) @
           [LocationScope, InsertionPointScope, BackedgeBuilderScope (bb ctx),
            BlockContextScope (bc ctx)]"
    by (simp add: ctx_scopes_def split: option.splits)
  from a b c d show ?thesis by blast
qed

theorem generate_failure_unwinds_witness:
  "gen_error (generate (adder_env \<lparr>actions = [], finish = ReturnsNone\<rparr>) clocked init_world)
     = Some (UnconnectedSignalError ''Reg'' [''q'']) \<and>
   calls (gen_world (generate (adder_env \<lparr>actions = [], finish = ReturnsNone\<rparr>) clocked init_world))
     = [Enter (BlockContextScope 0), Enter (BackedgeBuilderScope ''Reg''),
        Enter InsertionPointScope, Enter LocationScope, Enter (ClockScope 10),
        CallGenerator,
        Exit (ClockScope 10) True, Exit LocationScope True, Exit InsertionPointScope True,
        Exit (BackedgeBuilderScope ''Reg'') True, Exit (BlockContextScope 0) True] \<and>
   current_block_context
     (gen_world (generate (adder_env \<lparr>actions = [], finish = ReturnsNone\<rparr>) clocked init_world))
     = Some 0 \<and>
   gen_error (generate (backedge_env \<lparr>actions = [SetOutput 0 (Literal 5)], finish = ReturnsNone\<rparr>)
                clocked init_world)
     = Some (Raised ''RuntimeError'') \<and>
   calls (gen_world (generate (backedge_env \<lparr>actions = [SetOutput 0 (Literal 5)], finish = ReturnsNone\<rparr>)
                clocked init_world))
     = [Enter (BlockContextScope 0), Enter (BackedgeBuilderScope ''Reg''),
        Enter InsertionPointScope, Enter LocationScope, Enter (ClockScope 10),
        CallGenerator,
        Exit (ClockScope 10) False, Exit LocationScope False, Exit InsertionPointScope False,
        Exit (BackedgeBuilderScope ''Reg'') False] \<and>
   map_option proxy_builder
     (gen_ports (generate (backedge_env \<lparr>actions = [SetOutput 0 (Literal 5)], finish = ReturnsNone\<rparr>)
                   clocked init_world))
     = Some (Some clocked) \<and>
   current_block_context
     (gen_world (generate (backedge_env \<lparr>actions = [SetOutput 0 (Literal 5)], finish = ReturnsNone\<rparr>)
                   clocked init_world))
     = Some 0"
proof -
  let ?E = "adder_env \<lparr>actions = [], finish = ReturnsNone\<rparr>
              :: (nat, string, nat, unit, unit) gen_env"
  let ?F = "backedge_env \<lparr>actions = [SetOutput 0 (Literal 5)], finish = ReturnsNone\<rparr>
              :: (nat, string, nat, unit, unit) gen_env"
  let ?ctx = "\<lparr>bc = 0, bc_old_token = None, bb = ''Reg'', clk = Some (10::nat)\<rparr>"
  let ?w1 = "\<lparr>current_block_context = None, block_contexts_created = 1, calls = [],
               mod_body = Unterminated\<rparr> :: nat world"
  let ?w2 = "\<lparr>current_block_context = Some 0, block_contexts_created = 1,
               calls = [Enter (BlockContextScope 0), Enter (BackedgeBuilderScope ''Reg''),
                        Enter InsertionPointScope, Enter LocationScope, Enter (ClockScope 10)],
               mod_body = Unterminated\<rparr> :: nat world"
  let ?p = "new_port_proxy [10, 11] clocked :: (nat, string, unit, unit, unit) PortProxyBase"
  let ?q = "?p\<lparr>output_values := Some [Some \<lparr>sig_value = 5, sig_type = ''i8''\<rparr>]\<rparr>"
  have h1: "generators clocked = [(''build'', ())]" by (simp add: clocked_def)
  have h2: "GeneratorCtxt_init (attr_str ?E) clocked (new_port_proxy (block_arguments ?E) clocked)
              (init_world\<lparr>mod_body := Unterminated\<rparr>) = Inr (?ctx, ?w1)"
    by (simp add: generate_eval)
  have h3: "GeneratorCtxt_enter ?ctx ?w1 = (?ctx, ?w2)"
    by (simp add: generate_eval)
  have h4: "generate_body ?E () (new_port_proxy (block_arguments ?E) clocked) ?w2
              = (Some (UnconnectedSignalError ''Reg'' [''q'']), ?p,
                 ?w2\<lparr>calls := calls ?w2 @ [CallGenerator]\<rparr>)"
    by (simp add: generate_eval)
  have k2: "GeneratorCtxt_init (attr_str ?F) clocked (new_port_proxy (block_arguments ?F) clocked)
              (init_world\<lparr>mod_body := Unterminated\<rparr>) = Inr (?ctx, ?w1)"
    by (simp add: generate_eval)
  have k4: "generate_body ?F () (new_port_proxy (block_arguments ?F) clocked) ?w2
              = (None, ?q, ?w2\<lparr>calls := calls ?w2 @ [CallGenerator],
                                mod_body := Terminated [5]\<rparr>)"
    by (simp add: generate_eval)
  have k5: "butlast (rev (ctx_scopes ?ctx)) =
              [ClockScope 10, LocationScope, InsertionPointScope] @
              BackedgeBuilderScope ''Reg'' # []"
    by (simp add: ctx_scopes_def)
  have k6: "\<forall>s' \<in> set [ClockScope (10::nat), LocationScope, InsertionPointScope].
              scope_exit ?F s' = None"
    by (simp add: backedge_env_def)
  have k7: "scope_exit ?F (BackedgeBuilderScope ''Reg'') = Some (Raised ''RuntimeError'')"
    by (simp add: backedge_env_def)
  note a = generate_failure_unwinds[OF h1 h2 h3 h4, THEN conjunct1, rule_format,
      of "UnconnectedSignalError ''Reg'' [''q'']"]
  note b = generate_failure_unwinds[OF h1 k2 h3 k4, THEN conjunct2, THEN conjunct1, rule_format,
      of "[ClockScope 10, LocationScope, InsertionPointScope]" "BackedgeBuilderScope ''Reg''"
         "[]" "Raised ''RuntimeError''"]
  have a': "gen_error (generate ?E clocked init_world) = Some (UnconnectedSignalError ''Reg'' [''q''])"
    "calls (gen_world (generate ?E clocked init_world)) =
       calls init_world @ map Enter (ctx_scopes ?ctx) @ [CallGenerator]
         @ map (\<lambda>s. Exit s True) (rev (ctx_scopes ?ctx))"
    "current_block_context (gen_world (generate ?E clocked init_world)) = Some (bc ?ctx)"
    using a by simp_all
  have b': "gen_error (generate ?F clocked init_world) = Some (Raised ''RuntimeError'')"
    "calls (gen_world (generate ?F clocked init_world)) =
       calls init_world @ map Enter (ctx_scopes ?ctx) @ [CallGenerator]
         @ map (\<lambda>s. Exit s False)
             ([ClockScope 10, LocationScope, InsertionPointScope] @ [BackedgeBuilderScope ''Reg''])"
    "gen_ports (generate ?F clocked init_world) = Some ?q"
    "current_block_context (gen_world (generate ?F clocked init_world)) = Some (bc ?ctx)"
    using b k5 k6 k7 by simp_all
  show ?thesis
    unfolding a' b' by (simp add: ctx_scopes_def init_world_def new_port_proxy_def)
qed

text \<open>
  C2 (as stated). The generation routine of \<open>Adder\<close> returns without assigning \<open>sum\<close>.
  Generation fails with the unconnected-output error naming \<open>sum\<close>, but the entry block
  that was added to the module node stays there without a terminator. When the routine
  also returns a value, the error is the invalid-return \<open>ValueError\<close> instead.
\<close>

theorem generate_unconnected_counterexample:
  "gen_error (generate (adder_env \<lparr>actions = [], finish = ReturnsNone\<rparr>) (adder True) init_world)
     = Some (UnconnectedSignalError ''Adder'' [''sum'']) \<and>
   mod_body (gen_world
     (generate (adder_env \<lparr>actions = [], finish = ReturnsNone\<rparr>) (adder True) init_world))
     = Unterminated \<and>
   gen_error (generate (adder_env \<lparr>actions = [], finish = ReturnsValue\<rparr>) (adder True) init_world)
     = Some (ValueError ''Generators must not return a value'')"
  by (simp add: generate_eval)

text \<open>
  C2 (amended). For every generation invocation in which at least one declared output
  port is left unassigned when the generation routine returns: if the routine returned no
  value, generation fails with the unconnected-output error carrying the module name and
  exactly the names of the unassigned output ports, in port order; if it returned a
  value, generation fails with the invalid-return \<open>ValueError\<close>. In both cases no
  terminator is emitted: the entry block added to the IR module node is left without one.
\<close>

theorem generate_unconnected_outputs:
  assumes "generators self = [(gname, g)]"
    and "GeneratorCtxt_init (attr_str E) self (new_port_proxy (block_arguments E) self)
           (w\<lparr>mod_body := Unterminated\<rparr>) = Inr (ctx, w1)"
    and "run_actions (hw E) (actions (gen_func E g (block_arguments E)))
           (new_port_proxy (block_arguments E) self) = Inr proxy'"
    and "finish (gen_func E g (block_arguments E)) = ReturnsNone \<or>
         finish (gen_func E g (block_arguments E)) = ReturnsValue"
    and "output_values proxy' = Some vals"
    and "None \<in> set vals"
  shows "gen_error (generate E self w) =
           Some (if finish (gen_func E g (block_arguments E)) = ReturnsNone
                 then UnconnectedSignalError (modcls_name self)
                        (map (\<lambda>(p, v). name p)
                           (filter (\<lambda>(p, v). v = None) (zip (outputs self) vals)))
                 else ValueError ''Generators must not return a value'') \<and>
         length vals = length (outputs self) \<and>
         mod_body (gen_world (generate E self w)) = Unterminated"
proof -
  let ?proxy = "new_port_proxy (block_arguments E) self"
  let ?names = "map (\<lambda>(p, v). name p) (filter (\<lambda>(p, v). v = None) (zip (outputs self) vals))"
  from run_actions_inv[OF assms(3), of self "replicate (length (outputs self)) None"] assms(5)
  have inv: "length vals = length (outputs self)" "proxy_builder proxy' = Some self"
    "proxy_name proxy' = modcls_name self"
    by (simp_all add: new_port_proxy_def)
  have un: "unconnected_from (outputs self) 0 vals = Inr ?names"
    using unconnected_from_zip[of 0 vals "outputs self"] inv(1) by simp
  from assms(6) obtain i where i: "i < length vals" "vals ! i = None"
    by (metis in_set_conv_nth)
  then have "(outputs self ! i, None) \<in> set (zip (outputs self) vals)"
    using inv(1) by (metis in_set_zip fst_conv snd_conv)
  then have "filter (\<lambda>(p, v). v = None) (zip (outputs self) vals) \<noteq> []"
    by (auto simp: filter_empty_conv)
  then have ne: "?names \<noteq> []" by simp
  have chk: "check_unconnected_outputs proxy'
               = Some (UnconnectedSignalError (modcls_name self) ?names)"
    using inv assms(5) un ne by (simp add: check_unconnected_outputs_def)
  let ?e = "if finish (gen_func E g (block_arguments E)) = ReturnsNone
            then UnconnectedSignalError (modcls_name self) ?names
            else ValueError ''Generators must not return a value''"
  obtain ctx' w2 where en: "GeneratorCtxt_enter ctx w1 = (ctx', w2)"
    by (cases "GeneratorCtxt_enter ctx w1")
  obtain err p3 w3 where bd: "generate_body E g ?proxy w2 = (err, p3, w3)"
    by (cases "generate_body E g ?proxy w2") auto
  have "err = Some ?e"
    using bd assms(3,4) chk by (auto simp: generate_body_def Let_def)
  with bd have bd': "generate_body E g ?proxy w2 = (Some ?e, p3, w3)" by simp
  from generate_body_failed(1,5)[OF assms(1,2) en bd'] inv(1) show ?thesis by simp
qed

theorem generate_unconnected_outputs_witness:
  "gen_error (generate (adder_env \<lparr>actions = [SetOutput 0 (Literal 5)], finish = ReturnsNone\<rparr>)
                (adder True) init_world) = None \<and>
   gen_error (generate (adder_env \<lparr>actions = [], finish = ReturnsNone\<rparr>) clocked
                (init_world\<lparr>current_block_context := Some 7, block_contexts_created := 8\<rparr>))
     = Some (UnconnectedSignalError ''Reg'' [''q'']) \<and>
   mod_body (gen_world (generate (adder_env \<lparr>actions = [], finish = ReturnsNone\<rparr>) clocked
                (init_world\<lparr>current_block_context := Some 7, block_contexts_created := 8\<rparr>)))
     = Unterminated"
proof -
  let ?E = "adder_env \<lparr>actions = [], finish = ReturnsNone\<rparr>
              :: (nat, string, nat, unit, unit) gen_env"
  let ?w = "init_world\<lparr>current_block_context := Some 7, block_contexts_created := 8\<rparr> :: nat world"
  let ?ctx = "\<lparr>bc = 8, bc_old_token = None, bb = ''Reg'', clk = Some (10::nat)\<rparr>"
  let ?p = "new_port_proxy (block_arguments ?E) clocked
              :: (nat, string, unit, unit, unit) PortProxyBase"
  have h1: "generators clocked = [(''build'', ())]" by (simp add: clocked_def)
  have h2: "GeneratorCtxt_init (attr_str ?E) clocked ?p (?w\<lparr>mod_body := Unterminated\<rparr>)
            = Inr (?ctx, \<lparr>current_block_context = Some 7, block_contexts_created = 9, calls = [],
                          mod_body = Unterminated\<rparr>)"
    by (simp add: generate_eval)
  have h3: "run_actions (hw ?E) (actions (gen_func ?E () (block_arguments ?E))) ?p = Inr ?p"
    by (simp add: adder_env_def)
  have h4: "finish (gen_func ?E () (block_arguments ?E)) = ReturnsNone \<or>
            finish (gen_func ?E () (block_arguments ?E)) = ReturnsValue"
    by (simp add: adder_env_def)
  have h5: "output_values ?p = Some [None]"
    by (simp add: generate_eval)
  have h6: "None \<in> set [None :: (nat, string) Signal option]" by simp
  have ok: "gen_error (generate (adder_env \<lparr>actions = [SetOutput 0 (Literal 5)], finish = ReturnsNone\<rparr>)
                (adder True) init_world) = None"
    by (simp add: generate_eval)
  from generate_unconnected_outputs[OF h1 h2 h3 h4 h5 h6] ok show ?thesis
    by (simp add: generate_eval)
qed



lemma scan_items_num_inputs:
  "scan_items E items st = Inr st' \<Longrightarrow>
     num_inputs st' = num_inputs st +
       length (filter (\<lambda>a. isinstance_Input (decl_cls (heap st a))) (map snd (visible items)))"
proof (induction items arbitrary: st)
  case Nil
  then show ?case by simp
next
  case (Cons item rest)
  obtain n attr where item: "item = (n, attr)" by (cases item)
  from Cons.prems item obtain st1 where
    s1: "scan_item E (n, attr) st = Inr st1" and r: "scan_items E rest st1 = Inr st'"
    by (auto split: sum.splits)
  have v: "visible (item # rest) = visible [(n, attr)] @ visible rest"
    using item visible_Cons[of item rest] by simp
  from scan_item_cases[OF s1] show ?case
  proof
    assume "\<exists>a. visible [(n, attr)] = [(n, a)] \<and> st1 = scan_port n a st"
    then obtain a where a: "visible [(n, attr)] = [(n, a)]" "st1 = scan_port n a st" by blast
    have cl: "decl_cls (heap (scan_port n a st) b) = decl_cls (heap st b)" for b
      by (simp add: scan_port_heap)
    from Cons.IH[OF r] a v show ?thesis by (simp add: cl scan_port_num_inputs)
  next
    assume inv: "visible [(n, attr)] = [] \<and> heap st1 = heap st \<and> loc_ports st1 = loc_ports st \<and>
          num_inputs st1 = num_inputs st \<and> num_outputs st1 = num_outputs st \<and>
          clock_ports st1 = clock_ports st \<and> reset_ports st1 = reset_ports st"
    with v have "visible (item # rest) = visible rest" by simp
    with Cons.IH[OF r] inv show ?thesis by simp
  qed
qed


lemma clock_positions_shift:
  "{n + j | j. j < Suc m \<and> Q j} =
     (if Q 0 then {n} else {}) \<union> {Suc n + j | j. j < m \<and> Q (Suc j)}"
proof (intro set_eqI iffI)
  fix x
  assume "x \<in> {n + j | j. j < Suc m \<and> Q j}"
  then obtain j where j: "x = n + j" "j < Suc m" "Q j" by blast
  show "x \<in> (if Q 0 then {n} else {}) \<union> {Suc n + j | j. j < m \<and> Q (Suc j)}"
  proof (cases j)
    case 0
    with j show ?thesis by simp
  next
    case (Suc k)
    with j have "x = Suc n + k" "k < m" "Q (Suc k)" by simp_all
    then show ?thesis by blast
  qed
next
  fix x
  assume "x \<in> (if Q 0 then {n} else {}) \<union> {Suc n + j | j. j < m \<and> Q (Suc j)}"
  then consider "Q 0" "x = n" | k where "x = Suc n + k" "k < m" "Q (Suc k)"
    by (auto split: if_splits)
  then show "x \<in> {n + j | j. j < Suc m \<and> Q j}"
  proof cases
    case 1
    then have "x = n + 0 \<and> 0 < Suc m \<and> Q 0" by simp
    then show ?thesis by blast
  next
    case 2
    then have "x = n + Suc k \<and> Suc k < Suc m \<and> Q (Suc k)" by simp
    then show ?thesis by blast
  qed
qed

lemma scan_items_clock_positions:
  "scan_items E items st = Inr st' \<Longrightarrow>
     clock_ports st' = clock_ports st \<union>
       {num_inputs st + j | j.
          j < length (filter (\<lambda>a. isinstance_Input (decl_cls (heap st a))) (map snd (visible items))) \<and>
          isinstance_Clock (decl_cls (heap st
            (filter (\<lambda>a. isinstance_Input (decl_cls (heap st a))) (map snd (visible items)) ! j)))}"
proof (induction items arbitrary: st)
  case Nil
  then show ?case by simp
next
  case (Cons item rest)
  obtain n attr where item: "item = (n, attr)" by (cases item)
  from Cons.prems item obtain st1 where
    s1: "scan_item E (n, attr) st = Inr st1" and r: "scan_items E rest st1 = Inr st'"
    by (auto split: sum.splits)
  have v: "visible (item # rest) = visible [(n, attr)] @ visible rest"
    using item visible_Cons[of item rest] by simp
  let ?R = "filter (\<lambda>a. isinstance_Input (decl_cls (heap st a))) (map snd (visible rest))"
  from scan_item_cases[OF s1] show ?case
  proof
    assume "\<exists>a. visible [(n, attr)] = [(n, a)] \<and> st1 = scan_port n a st"
    then obtain a where a: "visible [(n, attr)] = [(n, a)]" "st1 = scan_port n a st" by blast
    have cl: "decl_cls (heap st1 b) = decl_cls (heap st b)" for b
      using a(2) by (simp add: scan_port_heap)
    have c1: "clock_ports st1 = (if isinstance_Clock (decl_cls (heap st a))
                                 then insert (num_inputs st) (clock_ports st)
                                 else clock_ports st)"
      using a(2) by (simp add: scan_port_clocks)
    have n1: "num_inputs st1 = (if isinstance_Input (decl_cls (heap st a))
                                then Suc (num_inputs st) else num_inputs st)"
      using a(2) by (simp add: scan_port_num_inputs)
    have IH: "clock_ports st' = clock_ports st1 \<union>
                {num_inputs st1 + j | j. j < length ?R \<and>
                   isinstance_Clock (decl_cls (heap st (?R ! j)))}"
      using Cons.IH[OF r] by (simp add: cl)
    show ?thesis
    proof (cases "isinstance_Input (decl_cls (heap st a))")
      case True
      have f: "filter (\<lambda>a. isinstance_Input (decl_cls (heap st a)))
                 (map snd (visible (item # rest))) = a # ?R"
        using v a(1) True by simp
      have sh: "{num_inputs st + j | j. j < Suc (length ?R) \<and>
                   isinstance_Clock (decl_cls (heap st ((a # ?R) ! j)))} =
                (if isinstance_Clock (decl_cls (heap st a)) then {num_inputs st} else {}) \<union>
                {Suc (num_inputs st) + j | j. j < length ?R \<and>
                   isinstance_Clock (decl_cls (heap st (?R ! j)))}"
        using clock_positions_shift[of "num_inputs st" "length ?R"
            "\<lambda>j. isinstance_Clock (decl_cls (heap st ((a # ?R) ! j)))"]
        by simp
      have "clock_ports st' = clock_ports st \<union>
              {num_inputs st + j | j. j < Suc (length ?R) \<and>
                 isinstance_Clock (decl_cls (heap st ((a # ?R) ! j)))}"
        unfolding sh IH using c1 n1 True by auto
      then show ?thesis unfolding f by simp
    next
      case False
      then have nc: "\<not> isinstance_Clock (decl_cls (heap st a))"
        using clock_is_input by blast
      have f: "filter (\<lambda>a. isinstance_Input (decl_cls (heap st a)))
                 (map snd (visible (item # rest))) = ?R"
        using v a(1) False by simp
      show ?thesis unfolding f IH using c1 n1 False nc by simp
    qed
  next
    assume inv: "visible [(n, attr)] = [] \<and> heap st1 = heap st \<and> loc_ports st1 = loc_ports st \<and>
          num_inputs st1 = num_inputs st \<and> num_outputs st1 = num_outputs st \<and>
          clock_ports st1 = clock_ports st \<and> reset_ports st1 = reset_ports st"
    with v have "visible (item # rest) = visible rest" by simp
    with Cons.IH[OF r] inv show ?thesis by simp
  qed
qed

lemma scan_cls_clock_positions:
  fixes self :: "(addr, 'g, 'k, 'a) ModuleLikeBuilderBase" and h :: "addr \<Rightarrow> 't ModuleDecl"
  assumes "scan_cls E self cls_dct h = Inr (self', h')"
  shows "clocks (snapshot h' self') =
           {i. i < length (inputs (snapshot h' self')) \<and>
               isinstance_Clock (decl_cls (inputs (snapshot h' self') ! i))}"
proof -
  let ?s0 = "scan_init h (attributes self) :: ('t, 'g, 'k, 'a) scan_state"
  let ?ins = "filter (\<lambda>a. isinstance_Input (decl_cls (h a))) (map snd (visible cls_dct))"
  from assms obtain s' where
    s': "scan_items E cls_dct ?s0 = Inr s'"
    and c: "clocks self' = clock_ports s'" and h': "h' = heap s'"
    unfolding scan_cls_unfold by auto
  have cls: "decl_cls (h' a) = decl_cls (h a)" for a
    using scan_items_frame[OF s'] h' by (simp add: scan_init_def)
  have ins: "inputs (snapshot h' self') = map h' ?ins"
    by (rule scan_cls_inputs(1)[OF assms])
  have cp: "clock_ports s' =
              {j. j < length ?ins \<and> isinstance_Clock (decl_cls (h (?ins ! j)))}"
    using scan_items_clock_positions[OF s'] by (simp add: scan_init_def)
  have cs: "clocks (snapshot h' self') = clock_ports s'"
    using c by (simp add: snapshot_def)
  show ?thesis unfolding cs cp ins by (auto simp: cls)
qed

lemma scan_cls_clocks:
  fixes self :: "(addr, 'g, 'k, 'a) ModuleLikeBuilderBase" and h :: "addr \<Rightarrow> 't ModuleDecl"
  assumes "scan_cls E self cls_dct h = Inr (self', h')"
  shows "card (clocks (snapshot h' self')) =
           length (filter (\<lambda>p. isinstance_Clock (decl_cls p)) (ports (snapshot h' self')))"
    and "\<forall>i \<in> clocks (snapshot h' self'). i < length (inputs (snapshot h' self'))"
proof -
  let ?s0 = "scan_init h (attributes self) :: ('t, 'g, 'k, 'a) scan_state"
  from assms obtain s' where
    s': "scan_items E cls_dct ?s0 = Inr s'"
    and c: "clocks self' = clock_ports s'" and h': "h' = heap s'"
    and p: "ports self' = loc_ports s'"
    unfolding scan_cls_unfold by auto
  have cls: "decl_cls (h' a) = decl_cls (h a)" for a
    using scan_items_frame[OF s'] h' by (simp add: scan_init_def)
  have lp: "ports self' = map snd (visible cls_dct)"
    using scan_items_frame[OF s'] p by (simp add: scan_init_def)
  have "finite (clock_ports ?s0)" "\<forall>i \<in> clock_ports ?s0. i < num_inputs ?s0"
    by (simp_all add: scan_init_def)
  from scan_items_clocks[OF s' this] have
    k: "card (clock_ports s') =
          length (filter (\<lambda>a. isinstance_Clock (decl_cls (h a))) (map snd (visible cls_dct)))"
    and b: "\<forall>i \<in> clock_ports s'. i < num_inputs s'"
    by (simp_all add: scan_init_def)
  have n: "num_inputs s' =
             length (filter (\<lambda>a. isinstance_Input (decl_cls (h a))) (map snd (visible cls_dct)))"
    using scan_items_num_inputs[OF s'] by (simp add: scan_init_def)
  note vw = scan_cls_inputs[OF assms]
  show "card (clocks (snapshot h' self')) =
           length (filter (\<lambda>p. isinstance_Clock (decl_cls p)) (ports (snapshot h' self')))"
    using k c cls lp by (simp add: snapshot_def filter_map comp_def)
  have li: "length (inputs (snapshot h' self')) = num_inputs s'"
    using n by (simp add: vw(1))
  have cs: "clocks (snapshot h' self') = clock_ports s'"
    using c by (simp add: snapshot_def)
  show "\<forall>i \<in> clocks (snapshot h' self'). i < length (inputs (snapshot h' self'))"
    using b li cs by simp
qed

lemma GeneratorCtxt_init_succeeds:
  assumes "\<forall>i \<in> clocks builder. i < length args" and "block_args proxy = Some args"
  shows "\<exists>ctx w1. GeneratorCtxt_init val_str builder proxy w = Inr (ctx, w1)"
proof (cases "card (clocks builder) = 1")
  case True
  then obtain i where "clocks builder = {i}" by (auto simp: card_1_singleton_iff)
  then have "the_elem (clocks builder) < length args" using assms(1) by simp
  with True assms(2) show ?thesis by (simp add: GeneratorCtxt_init_def Let_def)
next
  case False
  then show ?thesis by (simp add: GeneratorCtxt_init_def Let_def)
qed

text \<open>
  C7. A definition is scanned and then generated, the entry block providing one argument
  per input port. When the definition has exactly one clock port, it is input number
  \<open>i\<close> for one \<open>i\<close> only, and the calls of the generation are: the block context, the
  backedge builder, the insertion point and the location entered, then the clock scope of
  the entry block's argument number \<open>i\<close> entered, then the generation routine, then that
  clock scope exited; no other call on a clock scope is made. When the definition has no
  clock port or more than one, the four scopes are entered, the generation routine is
  called and the location scope is exited; no call on a clock scope is made at all.
\<close>

theorem generate_implicit_clock:
  fixes self0 :: "(addr, 'g, 'k, 'a) ModuleLikeBuilderBase" and h :: "addr \<Rightarrow> 't ModuleDecl"
  assumes "scan_cls E0 self0 cls_dct h = Inr (self', h')"
    and "generators (snapshot h' self') = [(gname, g)]"
    and "length (block_arguments E) = length (inputs (snapshot h' self'))"
  shows "(length (filter (\<lambda>p. isinstance_Clock (decl_cls p)) (ports (snapshot h' self'))) = 1 \<longrightarrow>
            (\<exists>i exc rest.
               i < length (inputs (snapshot h' self')) \<and>
               isinstance_Clock (decl_cls (inputs (snapshot h' self') ! i)) \<and>
               (\<forall>j < length (inputs (snapshot h' self')).
                  isinstance_Clock (decl_cls (inputs (snapshot h' self') ! j)) \<longrightarrow> j = i) \<and>
               calls (gen_world (generate E (snapshot h' self') w)) =
                 calls w @
                 [Enter (BlockContextScope (block_contexts_created w)),
                  Enter (BackedgeBuilderScope (builder_name (attr_str E) (snapshot h' self'))),
                  Enter InsertionPointScope, Enter LocationScope,
                  Enter (ClockScope (block_arguments E ! i)),
                  CallGenerator,
                  Exit (ClockScope (block_arguments E ! i)) exc] @ rest \<and>
               (\<forall>ev \<in> set rest. \<not> clock_call ev))) \<and>
         (length (filter (\<lambda>p. isinstance_Clock (decl_cls p)) (ports (snapshot h' self'))) \<noteq> 1 \<longrightarrow>
            (\<exists>exc rest.
               calls (gen_world (generate E (snapshot h' self') w)) =
                 calls w @
                 [Enter (BlockContextScope (block_contexts_created w)),
                  Enter (BackedgeBuilderScope (builder_name (attr_str E) (snapshot h' self'))),
                  Enter InsertionPointScope, Enter LocationScope,
                  CallGenerator,
                  Exit LocationScope exc] @ rest \<and>
               (\<forall>ev \<in> set rest. \<not> clock_call ev)))"
proof -
  let ?b = "snapshot h' self'"
  let ?proxy = "new_port_proxy (block_arguments E) ?b"
  let ?one = "length (filter (\<lambda>p. isinstance_Clock (decl_cls p)) (ports ?b)) = 1"
  note ck = scan_cls_clocks[OF assms(1)]
  note pos = scan_cls_clock_positions[OF assms(1)]
  have "\<forall>i \<in> clocks ?b. i < length (block_arguments E)" using ck(2) assms(3) by simp
  moreover have ba: "block_args ?proxy = Some (block_arguments E)"
    by (simp add: new_port_proxy_def)
  ultimately obtain ctx w1 where
    init: "GeneratorCtxt_init (attr_str E) ?b ?proxy (w\<lparr>mod_body := Unterminated\<rparr>) = Inr (ctx, w1)"
    using GeneratorCtxt_init_succeeds by blast
  note i = GeneratorCtxt_init_effect[OF init]
  have bc: "bc ctx = block_contexts_created w" using i(1) by simp
  have ck1: "card (clocks ?b) = 1 \<longleftrightarrow> ?one" using ck(1) by simp
  have clk: "clk ctx = (if ?one then Some (block_arguments E ! the_elem (clocks ?b)) else None)"
    using GeneratorCtxt_init_clk[OF init ba] ck1 by simp
  from generate_calls[OF assms(2) init] obtain exc rest where
    c: "calls (gen_world (generate E ?b w)) =
          calls w @ map Enter (ctx_scopes ctx) @ [CallGenerator]
            @ Exit (last (ctx_scopes ctx)) exc # rest"
    and nc: "\<forall>ev \<in> set rest. \<not> clock_call ev" by blast
  have one: ?thesis if o: ?one
  proof -
    from o ck1 obtain k where k: "clocks ?b = {k}" by (auto simp: card_1_singleton_iff)
    then have "k \<in> clocks ?b" by simp
    then have k1: "k < length (inputs ?b)" "isinstance_Clock (decl_cls (inputs ?b ! k))"
      unfolding pos by simp_all
    have k2: "\<forall>j < length (inputs ?b). isinstance_Clock (decl_cls (inputs ?b ! j)) \<longrightarrow> j = k"
    proof (intro allI impI)
      fix j assume "j < length (inputs ?b)" "isinstance_Clock (decl_cls (inputs ?b ! j))"
      then have "j \<in> {i. i < length (inputs ?b) \<and>
                         isinstance_Clock (decl_cls (inputs ?b ! i))}" by simp
      then have "j \<in> clocks ?b" using pos by simp
      with k show "j = k" by simp
    qed
    have "clk ctx = Some (block_arguments E ! k)" using clk o k by simp
    then have sc: "ctx_scopes ctx =
                     [BlockContextScope (block_contexts_created w),
                      BackedgeBuilderScope (builder_name (attr_str E) ?b),
                      InsertionPointScope, LocationScope, ClockScope (block_arguments E ! k)]"
      using bc i(2) by (simp add: ctx_scopes_def)
    have "calls (gen_world (generate E ?b w)) =
            calls w @
            [Enter (BlockContextScope (block_contexts_created w)),
             Enter (BackedgeBuilderScope (builder_name (attr_str E) ?b)),
             Enter InsertionPointScope, Enter LocationScope,
             Enter (ClockScope (block_arguments E ! k)),
             CallGenerator,
             Exit (ClockScope (block_arguments E ! k)) exc] @ rest"
      using c unfolding sc by simp
    with k1 k2 nc o show ?thesis by blast
  qed
  have other: ?thesis if o: "\<not> ?one"
  proof -
    have "clk ctx = None" using clk o by simp
    then have sc: "ctx_scopes ctx =
                     [BlockContextScope (block_contexts_created w),
                      BackedgeBuilderScope (builder_name (attr_str E) ?b),
                      InsertionPointScope, LocationScope]"
      using bc i(2) by (simp add: ctx_scopes_def)
    have "calls (gen_world (generate E ?b w)) =
            calls w @
            [Enter (BlockContextScope (block_contexts_created w)),
             Enter (BackedgeBuilderScope (builder_name (attr_str E) ?b)),
             Enter InsertionPointScope, Enter LocationScope,
             CallGenerator,
             Exit LocationScope exc] @ rest"
      using c unfolding sc by simp
    with nc o show ?thesis by blast
  qed
  from one other show ?thesis by blast
qed

definition late_clock_dct :: "(string \<times> (unit, unit, nat) declared) list" where
  "late_clock_dct =
     [(''a'', PortMarker 1), (''x'', PortMarker 2), (''clk'', PortMarker 0),
      (''build'', GeneratorObj ())]"

definition late_clock_builder :: "(string ModuleDecl, unit, unit, nat) ModuleLikeBuilderBase" where
  "late_clock_builder =
     \<lparr>modcls_name = ''M'', modcls_module_name = None,
      ports = [\<lparr>decl_cls = InputCls, decl_type = ''i8'', idx = 0, name = ''a''\<rparr>,
               \<lparr>decl_cls = OutputCls, decl_type = ''i8'', idx = 0, name = ''x''\<rparr>,
               \<lparr>decl_cls = ClockCls, decl_type = ''i8'', idx = 1, name = ''clk''\<rparr>],
      clocks = {1}, resets = {},
      generators = [(''build'', ())], constants = [],
      parameters = None, attributes = [(''output_file'', OutputFileAttr ''M.sv'')]\<rparr>"

definition two_clock_dct :: "(string \<times> (unit, unit, nat) declared) list" where
  "two_clock_dct =
     [(''c1'', PortMarker 0), (''x'', PortMarker 2), (''c2'', PortMarker 1),
      (''build'', GeneratorObj ())]"

definition two_clock_heap :: "addr \<Rightarrow> string ModuleDecl" where
  "two_clock_heap = (\<lambda>_. marker ClockCls)(2 := marker OutputCls)"

definition two_clock_builder :: "(string ModuleDecl, unit, unit, nat) ModuleLikeBuilderBase" where
  "two_clock_builder =
     \<lparr>modcls_name = ''M'', modcls_module_name = None,
      ports = [\<lparr>decl_cls = ClockCls, decl_type = ''i8'', idx = 0, name = ''c1''\<rparr>,
               \<lparr>decl_cls = OutputCls, decl_type = ''i8'', idx = 0, name = ''x''\<rparr>,
               \<lparr>decl_cls = ClockCls, decl_type = ''i8'', idx = 1, name = ''c2''\<rparr>],
      clocks = {0, 1}, resets = {},
      generators = [(''build'', ())], constants = [],
      parameters = None, attributes = [(''output_file'', OutputFileAttr ''M.sv'')]\<rparr>"

theorem generate_implicit_clock_witness:
  "scan_view (Inr :: nat \<Rightarrow> error + nat) (new_builder ''M'') late_clock_dct example_heap
     = Some late_clock_builder \<and>
   (\<exists>exc rest.
      calls (gen_world (generate (adder_env \<lparr>actions = [], finish = ReturnsNone\<rparr>)
                          late_clock_builder init_world)) =
        [Enter (BlockContextScope 0), Enter (BackedgeBuilderScope ''M''),
         Enter InsertionPointScope, Enter LocationScope, Enter (ClockScope 11),
         CallGenerator, Exit (ClockScope 11) exc] @ rest \<and>
      filter clock_call rest = []) \<and>
   scan_view (Inr :: nat \<Rightarrow> error + nat) (new_builder ''M'') two_clock_dct two_clock_heap
     = Some two_clock_builder \<and>
   (\<exists>exc rest.
      calls (gen_world (generate (adder_env \<lparr>actions = [], finish = ReturnsNone\<rparr>)
                          two_clock_builder init_world)) =
        [Enter (BlockContextScope 0), Enter (BackedgeBuilderScope ''M''),
         Enter InsertionPointScope, Enter LocationScope,
         CallGenerator, Exit LocationScope exc] @ rest \<and>
      filter clock_call rest = [])"
proof -
  let ?S = "Inr :: nat \<Rightarrow> error + nat"
  let ?B = "new_builder ''M'' :: (addr, unit, unit, nat) ModuleLikeBuilderBase"
  let ?E = "adder_env \<lparr>actions = [], finish = ReturnsNone\<rparr>
              :: (nat, string, nat, unit, nat) gen_env"
  let ?w = "init_world :: nat world"
  have bn: "builder_name (attr_str ?E) late_clock_builder = ''M''"
    "builder_name (attr_str ?E) two_clock_builder = ''M''"
    by (simp_all add: builder_name_def late_clock_builder_def two_clock_builder_def)
  have args: "block_arguments ?E = [10, 11]" by (simp add: adder_env_def)
  have v: "scan_view ?S ?B late_clock_dct example_heap = Some late_clock_builder"
    by (simp add: scan_eval late_clock_dct_def example_heap_def late_clock_builder_def)
  then obtain self' h' where r: "scan_cls ?S ?B late_clock_dct example_heap = Inr (self', h')"
    and x: "snapshot h' self' = late_clock_builder"
    by (auto simp: scan_view_def split: sum.splits)
  have g: "generators (snapshot h' self') = [(''build'', ())]"
    unfolding x by (simp add: late_clock_builder_def)
  have ins: "inputs late_clock_builder =
               [\<lparr>decl_cls = InputCls, decl_type = ''i8'', idx = 0, name = ''a''\<rparr>,
                \<lparr>decl_cls = ClockCls, decl_type = ''i8'', idx = 1, name = ''clk''\<rparr>]"
    by (simp add: late_clock_builder_def inputs_def isinstance_Input_def)
  have l: "length (block_arguments ?E) = length (inputs (snapshot h' self'))"
    unfolding x ins args by simp
  have k: "length (filter (\<lambda>p. isinstance_Clock (decl_cls p)) (ports late_clock_builder)) = 1"
    by (simp add: late_clock_builder_def isinstance_Clock_def)
  from generate_implicit_clock[OF r g l, of ?w, unfolded x, THEN conjunct1, rule_format, OF k]
  obtain i exc rest where
    i: "i < length (inputs late_clock_builder)"
      "isinstance_Clock (decl_cls (inputs late_clock_builder ! i))"
    and cs: "calls (gen_world (generate ?E late_clock_builder init_world)) =
           calls ?w @
           [Enter (BlockContextScope (block_contexts_created ?w)),
            Enter (BackedgeBuilderScope (builder_name (attr_str ?E) late_clock_builder)),
            Enter InsertionPointScope, Enter LocationScope,
            Enter (ClockScope (block_arguments ?E ! i)),
            CallGenerator,
            Exit (ClockScope (block_arguments ?E ! i)) exc] @ rest"
    and nc: "\<forall>ev \<in> set rest. \<not> clock_call ev"
    by (elim exE conjE) (rule that)
  have "i = 1"
    using i unfolding ins by (cases i) (simp_all add: isinstance_Clock_def)
  then have a1: "block_arguments ?E ! i = 11" unfolding args by simp
  have f1: "filter clock_call rest = []" using nc by (simp add: filter_empty_conv)
  have c1: "calls (gen_world (generate ?E late_clock_builder init_world)) =
        [Enter (BlockContextScope 0), Enter (BackedgeBuilderScope ''M''),
         Enter InsertionPointScope, Enter LocationScope, Enter (ClockScope 11),
         CallGenerator, Exit (ClockScope 11) exc] @ rest"
    using cs unfolding a1 bn by (simp add: init_world_def)
  have v2: "scan_view ?S ?B two_clock_dct two_clock_heap = Some two_clock_builder"
    by (simp add: scan_eval two_clock_dct_def two_clock_heap_def two_clock_builder_def
        insert_commute)
  then obtain self2 h2 where r2: "scan_cls ?S ?B two_clock_dct two_clock_heap = Inr (self2, h2)"
    and x2: "snapshot h2 self2 = two_clock_builder"
    by (auto simp: scan_view_def split: sum.splits)
  have g2: "generators (snapshot h2 self2) = [(''build'', ())]"
    unfolding x2 by (simp add: two_clock_builder_def)
  have l2: "length (block_arguments ?E) = length (inputs (snapshot h2 self2))"
    unfolding x2 args by (simp add: two_clock_builder_def inputs_def isinstance_Input_def)
  have k2: "length (filter (\<lambda>p. isinstance_Clock (decl_cls p)) (ports two_clock_builder)) \<noteq> 1"
    by (simp add: two_clock_builder_def isinstance_Clock_def)
  from generate_implicit_clock[OF r2 g2 l2, of ?w, unfolded x2, THEN conjunct2, rule_format,
      OF k2]
  obtain exc2 rest2 where
    cs2: "calls (gen_world (generate ?E two_clock_builder init_world)) =
           calls ?w @
           [Enter (BlockContextScope (block_contexts_created ?w)),
            Enter (BackedgeBuilderScope (builder_name (attr_str ?E) two_clock_builder)),
            Enter InsertionPointScope, Enter LocationScope,
            CallGenerator,
            Exit LocationScope exc2] @ rest2"
    and nc2: "\<forall>ev \<in> set rest2. \<not> clock_call ev"
    by (elim exE conjE) (rule that)
  have f2: "filter clock_call rest2 = []" using nc2 by (simp add: filter_empty_conv)
  have c2: "calls (gen_world (generate ?E two_clock_builder init_world)) =
        [Enter (BlockContextScope 0), Enter (BackedgeBuilderScope ''M''),
         Enter InsertionPointScope, Enter LocationScope,
         CallGenerator, Exit LocationScope exc2] @ rest2"
    using cs2 unfolding bn by (simp add: init_world_def)
  from v c1 f1 v2 c2 f2 show ?thesis by blast
qed

end
